theory Spec2Isabelle
  imports Main "HOL-Library.AList"
begin

section \<open>Data model\<close>

text \<open>
  The canonical front end keeps the graph in React state: \<open>cities\<close> (the node ids, in
  order), \<open>nodes\<close> (the drawable nodes), \<open>links\<close> (the edges) and \<open>connections\<close>
  (the edges as loaded), next to the selection and the last search result.
  Edge weights are JavaScript numbers, that is IEEE doubles; they are integers here, and
  the values a distance table can hold beside a finite number are constructors of
  \<open>jsnum\<close>. Addition of doubles that hold integers is exact as long as the result stays
  within \<open>2\<^sup>5\<^sup>3\<close> in absolute value, which is why \<open>modelled\<close> below bounds the weights.

  An engine either returns, or throws a \<open>TypeError\<close>, or walks a predecessor table
  forever (\<open>Diverges\<close>). \<open>OutsideModel\<close> is no outcome of the source: it is the answer of
  this embedding on the inputs that it does not describe (see \<open>modelled\<close>), so that no
  statement below speaks about them.
\<close>

datatype error = TypeError | Diverges | OutsideModel

datatype jsnum = Num int | Infinity | NaN | Undefined

fun jsadd :: "jsnum \<Rightarrow> int \<Rightarrow> jsnum" where
  "jsadd (Num a) b = Num (a + b)"
| "jsadd Infinity b = Infinity"
| "jsadd NaN b = NaN"
| "jsadd Undefined b = NaN"

fun jslt :: "jsnum \<Rightarrow> jsnum \<Rightarrow> bool" where
  "jslt (Num a) (Num b) = (a < b)"
| "jslt (Num a) Infinity = True"
| "jslt _ _ = False"

record GraphNode =
  node_id :: string
  node_x :: int
  node_y :: int
  radius :: int
  color :: string
  node_name :: string

record GraphLink =
  source :: string
  target :: string
  distance :: int
  directed :: bool

record Connections =
  city1 :: string
  city2 :: string
  conn_distance :: int
  conn_directed :: bool

record PathResult =
  path :: "string list"
  totalDistance :: jsnum

record AnimationStep =
  currentNode :: string
  visitedEdge :: "(string \<times> string) option"
  currentPath :: "string list"
  isBacktrack :: bool
  waveNodes :: "string list option"
  waveEdges :: "(string \<times> string) list option"
  nextWaveNodes :: "string list option"
  waveNumber :: "nat option"
  isBackwardWave :: "bool option"

text \<open>The part of the component state the mutation handlers read and write.\<close>

record AppState =
  cities :: "string list"
  connections :: "Connections list"
  nodes :: "GraphNode list"
  links :: "GraphLink list"
  selectedCity :: "string option"
  startCity :: string
  endCity :: string
  dfsPath :: "PathResult option"
  pathNodes :: "string set"
  pathEdges :: "string set"
  animationSteps :: "AnimationStep list"
  currentStepIndex :: int
  isAnimating :: bool
  hl_currentNode :: "string option"
  hl_currentEdge :: "(string \<times> string) option"
  visitedNodes :: "string set"
  visitedEdges :: "string set"
  currentPathAnimation :: "string list"
  isBacktracking :: bool
  edgeToWaveMap :: "string \<rightharpoonup> (nat option \<times> bool)"
  isCreatingEdge :: bool
  edgeSource :: string
  edgeTarget :: string

text \<open>A JavaScript string is truthy unless it is empty.\<close>

definition truthy :: "string \<Rightarrow> bool" where
  "truthy s = (s \<noteq> [])"

text \<open>The template string \<open>`${a}-${b}`\<close> that keys the edge sets.\<close>

definition edgeKey :: "string \<Rightarrow> string \<Rightarrow> string" where
  "edgeKey a b = a @ ''-'' @ b"

section \<open>Adjacency builder\<close>

text \<open>
  \<open>adjacencyList\<close> is an object keyed by city, each value an array of
  \<open>{city, distance}\<close>. It is an association list here; \<open>adjacencyList[k].push(e)\<close>
  on a key that was never initialised is a TypeError.
\<close>

type_synonym adjacency = "(string \<times> (string \<times> int) list) list"

definition adjPush :: "string \<Rightarrow> string \<times> int \<Rightarrow> adjacency \<Rightarrow> error + adjacency" where
  "adjPush k e al =
     (case map_of al k of
        None \<Rightarrow> Inl TypeError
      | Some es \<Rightarrow> Inr (AList.update k (es @ [e]) al))"

definition addLink :: "bool \<Rightarrow> GraphLink \<Rightarrow> adjacency \<Rightarrow> error + adjacency" where
  "addLink reverseTraversal link al =
     (if reverseTraversal then
        (if directed link then adjPush (target link) (source link, distance link) al
         else (case adjPush (source link) (target link, distance link) al of
                 Inl e \<Rightarrow> Inl e
               | Inr al1 \<Rightarrow> adjPush (target link) (source link, distance link) al1))
      else
        (case adjPush (source link) (target link, distance link) al of
           Inl e \<Rightarrow> Inl e
         | Inr al1 \<Rightarrow>
             (if \<not> directed link then adjPush (target link) (source link, distance link) al1
              else Inr al1)))"

fun addLinks :: "bool \<Rightarrow> GraphLink list \<Rightarrow> adjacency \<Rightarrow> error + adjacency" where
  "addLinks reverseTraversal [] al = Inr al"
| "addLinks reverseTraversal (link # ls) al =
     (case addLink reverseTraversal link al of
        Inl e \<Rightarrow> Inl e
      | Inr al1 \<Rightarrow> addLinks reverseTraversal ls al1)"

definition initAdjacency :: "string list \<Rightarrow> adjacency" where
  "initAdjacency cs = fold (\<lambda>city al. AList.update city [] al) cs []"

definition buildAdjacencyList :: "string list \<Rightarrow> GraphLink list \<Rightarrow> bool \<Rightarrow> error + adjacency" where
  "buildAdjacencyList cs ls reverseTraversal = addLinks reverseTraversal ls (initAdjacency cs)"

section \<open>Mutation service\<close>

definition resetAnimationState :: "'a AppState_scheme \<Rightarrow> 'a AppState_scheme" where
  "resetAnimationState st =
     st\<lparr>hl_currentNode := None, hl_currentEdge := None, visitedNodes := {},
        visitedEdges := {}, currentPathAnimation := [], isBacktracking := False,
        edgeToWaveMap := Map.empty, isAnimating := False\<rparr>"

definition clearPath :: "'a AppState_scheme \<Rightarrow> 'a AppState_scheme" where
  "clearPath st =
     resetAnimationState
       (st\<lparr>dfsPath := None, pathNodes := {}, pathEdges := {}, animationSteps := [],
           currentStepIndex := - 1\<rparr>)"

text \<open>\<open>xs[0] || ""\<close>: the first element when it exists and is truthy.\<close>

definition firstOrEmpty :: "string list \<Rightarrow> string" where
  "firstOrEmpty xs = (case xs of [] \<Rightarrow> [] | c # _ \<Rightarrow> c)"

definition deleteNode :: "string \<Rightarrow> AppState \<Rightarrow> AppState" where
  "deleteNode nodeId st =
     (let remaining = filter (\<lambda>city. city \<noteq> nodeId) (cities st);
          st1 = st\<lparr>cities := remaining,
                   nodes := filter (\<lambda>node. node_id node \<noteq> nodeId) (nodes st),
                   links := filter (\<lambda>link. source link \<noteq> nodeId \<and> target link \<noteq> nodeId) (links st),
                   connections := filter (\<lambda>conn. city1 conn \<noteq> nodeId \<and> city2 conn \<noteq> nodeId)
                                    (connections st)\<rparr>;
          st2 = (if selectedCity st = Some nodeId then st1\<lparr>selectedCity := None\<rparr> else st1)
      in if startCity st = nodeId \<or> endCity st = nodeId then
           (let st3 = clearPath st2;
                st4 = (if startCity st = nodeId then st3\<lparr>startCity := firstOrEmpty remaining\<rparr> else st3)
            in (if endCity st = nodeId then st4\<lparr>endCity := firstOrEmpty remaining\<rparr> else st4))
         else st2)"

definition deleteEdge :: "string \<Rightarrow> string \<Rightarrow> AppState \<Rightarrow> AppState" where
  "deleteEdge src tgt st =
     (let st1 = st\<lparr>links := filter (\<lambda>link. \<not> (source link = src \<and> target link = tgt) \<and>
                                            \<not> (source link = tgt \<and> target link = src)) (links st),
                   connections := filter (\<lambda>conn. \<not> (city1 conn = src \<and> city2 conn = tgt) \<and>
                                                  \<not> (city1 conn = tgt \<and> city2 conn = src))
                                    (connections st)\<rparr>
      in if edgeKey src tgt \<in> pathEdges st \<or> edgeKey tgt src \<in> pathEdges st then clearPath st1
         else st1)"

definition edgeMatches :: "string \<Rightarrow> string \<Rightarrow> bool \<Rightarrow> GraphLink \<Rightarrow> bool" where
  "edgeMatches src tgt dir link =
     ((source link = src \<and> target link = tgt) \<or>
      (\<not> dir \<and> source link = tgt \<and> target link = src))"

definition connMatches :: "string \<Rightarrow> string \<Rightarrow> bool \<Rightarrow> Connections \<Rightarrow> bool" where
  "connMatches src tgt dir conn =
     ((city1 conn = src \<and> city2 conn = tgt) \<or>
      (\<not> dir \<and> city1 conn = tgt \<and> city2 conn = src))"

definition addNewEdge :: "string \<Rightarrow> string \<Rightarrow> int \<Rightarrow> bool \<Rightarrow> AppState \<Rightarrow> AppState" where
  "addNewEdge src tgt dist dir st =
     (if list_ex (edgeMatches src tgt dir) (links st) then
        st\<lparr>links := map (\<lambda>link. if edgeMatches src tgt dir link
                                  then link\<lparr>distance := dist, directed := dir\<rparr> else link) (links st),
           connections := map (\<lambda>conn. if connMatches src tgt dir conn
                                  then conn\<lparr>conn_distance := dist, conn_directed := dir\<rparr> else conn)
                            (connections st)\<rparr>
      else
        st\<lparr>links := links st @ [\<lparr>source = src, target = tgt, distance = dist, directed = dir\<rparr>],
           connections := connections st @
              [\<lparr>city1 = src, city2 = tgt, conn_distance = dist, conn_directed = dir\<rparr>]\<rparr>)"

text \<open>
  The dialog hands \<open>confirmAddEdge\<close> a JavaScript number, which may be \<open>NaN\<close> (the
  parse of a non-numeric entry). The alert is the boolean of the result. \<open>Infinity\<close>
  passes both tests of the source (\<open>isNaN(distance)\<close> and \<open>distance <= 0\<close> are false), so
  the source stores an edge of infinite weight; the links of this embedding carry integer
  weights, and the result for \<open>Infinity\<close> is \<open>OutsideModel\<close>.
\<close>

definition confirmAddEdge :: "jsnum \<Rightarrow> bool \<Rightarrow> AppState \<Rightarrow> error + (bool \<times> AppState)" where
  "confirmAddEdge dist dir st =
     (case dist of
        Num d \<Rightarrow> (if d \<le> 0 then Inr (True, st)
                  else Inr (False, (addNewEdge (edgeSource st) (edgeTarget st) d dir st)\<lparr>isCreatingEdge := False\<rparr>))
      | Infinity \<Rightarrow> Inl OutsideModel
      | NaN \<Rightarrow> Inr (True, st)
      | Undefined \<Rightarrow> Inr (True, st))"

section \<open>Traversal engines\<close>

text \<open>
  The engines keep their tables (\<open>adjacencyList\<close>, \<open>distanceMap\<close>, \<open>distances\<close>,
  \<open>previous\<close>) in plain JavaScript objects, keyed by node id. Such an object behaves as a
  finite map except at the member names of \<open>Object.prototype\<close>: a read of one of these
  keys that was never written yields the inherited member instead of \<open>undefined\<close>, and
  an assignment to \<open>__proto__\<close> replaces the prototype (or does nothing) instead of
  creating an entry. The tables are maps here. The keys an engine uses are the city ids,
  the two ends of the links and the two selected ids, so the embedding describes the
  engines on the inputs where none of these ids is such a member name, and where the
  absolute weights of the links sum to at most \<open>2\<^sup>5\<^sup>3\<close>, which keeps every sum an engine
  forms exact in double arithmetic. On every other input the engines below answer
  \<open>OutsideModel\<close> once they are past the test of the selection, which touches no table.
\<close>

definition protoKeys :: "string list" where
  "protoKeys =
     [''__proto__'', ''constructor'', ''hasOwnProperty'', ''isPrototypeOf'',
      ''propertyIsEnumerable'', ''toLocaleString'', ''toString'', ''valueOf'',
      ''__defineGetter__'', ''__defineSetter__'', ''__lookupGetter__'', ''__lookupSetter__'']"

definition linkEnds :: "GraphLink list \<Rightarrow> string list" where
  "linkEnds ls = concat (map (\<lambda>link. [source link, target link]) ls)"

definition modelled :: "string list \<Rightarrow> GraphLink list \<Rightarrow> string \<Rightarrow> string \<Rightarrow> bool" where
  "modelled cs ls startId endId \<longleftrightarrow>
     list_all (\<lambda>k. k \<notin> set protoKeys) (startId # endId # cs @ linkEnds ls) \<and>
     sum_list (map (\<lambda>link. \<bar>distance link\<bar>) ls) \<le> 9007199254740992"


record dfs_state =
  dfs_visited :: "string set"
  dfs_pathStack :: "string list"
  dfs_distanceMap :: "string \<rightharpoonup> int"
  dfs_animSteps :: "AnimationStep list"
  dfs_currentPath :: "string list"

definition plainStep :: "string \<Rightarrow> (string \<times> string) option \<Rightarrow> string list \<Rightarrow> bool \<Rightarrow> AnimationStep" where
  "plainStep n e p b =
     \<lparr>currentNode = n, visitedEdge = e, currentPath = p, isBacktrack = b,
      waveNodes = None, waveEdges = None, nextWaveNodes = None, waveNumber = None,
      isBackwardWave = None\<rparr>"

definition adjKeys :: "adjacency \<Rightarrow> string set" where
  "adjKeys al = fst ` set al"

function dfs :: "adjacency \<Rightarrow> bool \<Rightarrow> string \<Rightarrow> string \<Rightarrow> int \<Rightarrow> dfs_state \<Rightarrow> error + (bool \<times> dfs_state)"
and dfs_for :: "adjacency \<Rightarrow> bool \<Rightarrow> string \<Rightarrow> string \<Rightarrow> int \<Rightarrow> (string \<times> int) list \<Rightarrow> dfs_state \<Rightarrow> error + (bool \<times> dfs_state)"
where
  "dfs al rv current tgt currentDistance st =
     (if current = tgt then
        Inr (True, st\<lparr>dfs_pathStack := dfs_pathStack st @ dfs_currentPath st @ [current]\<rparr>)
      else
        (case map_of al current of
           None \<Rightarrow> Inl TypeError
         | Some es \<Rightarrow>
             dfs_for al rv current tgt currentDistance (if rv then rev es else es)
               (st\<lparr>dfs_visited := insert current (dfs_visited st),
                   dfs_animSteps := dfs_animSteps st @ [plainStep current None (dfs_currentPath st) False],
                   dfs_currentPath := dfs_currentPath st @ [current]\<rparr>)))"
| "dfs_for al rv current tgt currentDistance [] st =
     Inr (False, st\<lparr>dfs_animSteps := dfs_animSteps st @ [plainStep current None (dfs_currentPath st) True],
                    dfs_currentPath := butlast (dfs_currentPath st)\<rparr>)"
| "dfs_for al rv current tgt currentDistance (neighbor # rest) st =
     (if fst neighbor \<notin> dfs_visited st then
        (case dfs al rv (fst neighbor) tgt (currentDistance + snd neighbor)
                (st\<lparr>dfs_animSteps := dfs_animSteps st @
                       [plainStep current (Some (current, fst neighbor)) (dfs_currentPath st) False],
                    dfs_distanceMap := (dfs_distanceMap st)(fst neighbor \<mapsto> currentDistance + snd neighbor)\<rparr>) of
           Inl e \<Rightarrow> Inl e
         | Inr (found, st1) \<Rightarrow>
             (if found then Inr (True, st1)
              else dfs_for al rv current tgt currentDistance rest st1))
      else dfs_for al rv current tgt currentDistance rest st)"
  by pat_completeness auto


lemma dfs_dom_visited_mono:
  "dfs_dfs_for_dom (Inl (al, rv, current, tgt, cd, st)) \<Longrightarrow>
     dfs al rv current tgt cd st = Inr (b, st') \<Longrightarrow> dfs_visited st \<subseteq> dfs_visited st'"
  "dfs_dfs_for_dom (Inr (al, rv, current, tgt, cd, ns, st)) \<Longrightarrow>
     dfs_for al rv current tgt cd ns st = Inr (b, st') \<Longrightarrow> dfs_visited st \<subseteq> dfs_visited st'"
proof (induction al rv current tgt cd st and al rv current tgt cd ns st arbitrary: b st' and b st'
       rule: dfs_dfs_for.pinduct)
  case (1 al rv current tgt currentDistance st)
  then show ?case
    by (auto simp: dfs.psimps split: if_splits option.splits)
next
  case (2 al rv current tgt currentDistance st)
  then show ?case by (auto simp: dfs_for.psimps)
next
  case (3 al rv current tgt currentDistance neighbor rest st)
  show ?case
  proof (cases "fst neighbor \<in> dfs_visited st")
    case True
    with 3 show ?thesis by (simp add: dfs_for.psimps)
  next
    case False
    let ?st1 = "st\<lparr>dfs_animSteps := dfs_animSteps st @
                       [plainStep current (Some (current, fst neighbor)) (dfs_currentPath st) False],
                    dfs_distanceMap := (dfs_distanceMap st)(fst neighbor \<mapsto> currentDistance + snd neighbor)\<rparr>"
    from 3(5) False 3(1) obtain f s1 where
      r: "dfs al rv (fst neighbor) tgt (currentDistance + snd neighbor) ?st1 = Inr (f, s1)"
      by (auto simp: dfs_for.psimps split: sum.splits)
    from 3(2)[OF False r] have m1: "dfs_visited st \<subseteq> dfs_visited s1" by simp
    show ?thesis
    proof (cases f)
      case True
      with 3(5) 3(1) False r have "st' = s1" by (simp add: dfs_for.psimps)
      with m1 show ?thesis by simp
    next
      case f: False
      with 3(5) 3(1) False r have "dfs_for al rv current tgt currentDistance rest s1 = Inr (b, st')"
        by (simp add: dfs_for.psimps)
      from 3(3)[OF False r refl f this] m1 show ?thesis by blast
    qed
  qed
qed

termination dfs
proof (relation "measures
   [\<lambda>a. case a of
       Inl (al, rv, current, tgt, cd, st) \<Rightarrow> card (adjKeys al - insert current (dfs_visited st))
     | Inr (al, rv, current, tgt, cd, ns, st) \<Rightarrow> card (adjKeys al - dfs_visited st),
    \<lambda>a. case a of
       Inl (al, rv, current, tgt, cd, st) \<Rightarrow> (case map_of al current of None \<Rightarrow> 0 | Some es \<Rightarrow> 2 + length es)
     | Inr (al, rv, current, tgt, cd, ns, st) \<Rightarrow> 1 + length ns]", goal_cases)
  case 1
  then show ?case by simp
next
  case (2 al rv current tgt currentDistance st es)
  then show ?case by auto
next
  case (3 al rv current tgt currentDistance neighbor rest st)
  have fin: "finite (adjKeys al)" by (simp add: adjKeys_def)
  show ?case
  proof (cases "fst neighbor \<in> adjKeys al")
    case True
    with 3 fin have "card (adjKeys al - insert (fst neighbor) (dfs_visited st)) < card (adjKeys al - dfs_visited st)"
      by (intro psubset_card_mono) auto
    then show ?thesis by simp
  next
    case False
    then have "map_of al (fst neighbor) = None"
      by (simp add: adjKeys_def map_of_eq_None_iff)
    moreover from False have "adjKeys al - insert (fst neighbor) (dfs_visited st) = adjKeys al - dfs_visited st"
      by auto
    ultimately show ?thesis by simp
  qed
next
  case (4 al rv current tgt currentDistance neighbor rest st x2 x y)
  have fin: "finite (adjKeys al)" by (simp add: adjKeys_def)
  let ?st1 = "st\<lparr>dfs_animSteps := dfs_animSteps st @
                       [plainStep current (Some (current, fst neighbor)) (dfs_currentPath st) False],
                    dfs_distanceMap := (dfs_distanceMap st)(fst neighbor \<mapsto> currentDistance + snd neighbor)\<rparr>"
  from 4 have d: "dfs_dfs_for_dom (Inl (al, rv, fst neighbor, tgt, currentDistance + snd neighbor, ?st1))"
    and r: "dfs al rv (fst neighbor) tgt (currentDistance + snd neighbor) ?st1 = Inr (x, y)"
    by auto
  from dfs_dom_visited_mono(1)[OF d r] have "dfs_visited st \<subseteq> dfs_visited y"
    by simp
  then have "card (adjKeys al - dfs_visited y) \<le> card (adjKeys al - dfs_visited st)"
    using fin by (intro card_mono) auto
  then show ?case by auto
next
  case (5 al rv current tgt currentDistance neighbor rest st)
  then show ?case by simp
qed


declare dfs.simps [simp del]

definition performDFS :: "string list \<Rightarrow> GraphLink list \<Rightarrow> string \<Rightarrow> string \<Rightarrow> bool
    \<Rightarrow> error + (PathResult option \<times> AnimationStep list)" where
  "performDFS cs ls startId endId rv =
     (if \<not> truthy startId \<or> \<not> truthy endId \<or> startId = endId then Inr (None, [])
      else if \<not> modelled cs ls startId endId then Inl OutsideModel
      else
        (case buildAdjacencyList cs ls rv of
           Inl e \<Rightarrow> Inl e
         | Inr al \<Rightarrow>
             (case dfs al rv startId endId 0
                     \<lparr>dfs_visited = {}, dfs_pathStack = [],
                      dfs_distanceMap = (\<lambda>city. if city \<in> set cs then Some 0 else None),
                      dfs_animSteps = [], dfs_currentPath = []\<rparr> of
                Inl e \<Rightarrow> Inl e
              | Inr (found, st) \<Rightarrow>
                  (if dfs_pathStack st \<noteq> [] then
                     Inr (Some \<lparr>path = dfs_pathStack st,
                                totalDistance = (case dfs_distanceMap st endId of
                                                   None \<Rightarrow> Undefined | Some d \<Rightarrow> Num d)\<rparr>,
                          dfs_animSteps st)
                   else Inr (None, [])))))"

record bfs_state =
  bfs_visited :: "string set"
  bfs_queue :: "(string \<times> string list \<times> int) list"
  bfs_animSteps :: "AnimationStep list"

fun bfs_neighbors :: "string \<Rightarrow> string list \<Rightarrow> int \<Rightarrow> (string \<times> int) list \<Rightarrow> bfs_state \<Rightarrow> bfs_state" where
  "bfs_neighbors node cp dist [] st = st"
| "bfs_neighbors node cp dist (neighbor # rest) st =
     (if fst neighbor \<notin> bfs_visited st then
        bfs_neighbors node cp dist rest
          (st\<lparr>bfs_visited := insert (fst neighbor) (bfs_visited st),
              bfs_animSteps := bfs_animSteps st @
                 [plainStep node (Some (node, fst neighbor)) cp False,
                  plainStep (fst neighbor) None cp False],
              bfs_queue := bfs_queue st @ [(fst neighbor, cp, dist + snd neighbor)]\<rparr>)
      else bfs_neighbors node cp dist rest st)"

definition adjNodes :: "adjacency \<Rightarrow> string set" where
  "adjNodes al = (\<Union>kv \<in> set al. fst ` set (snd kv))"

lemma finite_adjNodes: "finite (adjNodes al)"
  by (simp add: adjNodes_def)

lemma adjNodes_lookup: "map_of al k = Some es \<Longrightarrow> fst ` set es \<subseteq> adjNodes al"
  by (force simp: adjNodes_def dest: map_of_SomeD)

lemma bfs_neighbors_measure:
  "fst ` set es \<subseteq> N \<Longrightarrow> finite N \<Longrightarrow>
   2 * card (N - bfs_visited (bfs_neighbors node cp dist es st)) + length (bfs_queue (bfs_neighbors node cp dist es st))
     \<le> 2 * card (N - bfs_visited st) + length (bfs_queue st)"
proof (induction es arbitrary: st)
  case Nil
  then show ?case by simp
next
  case (Cons nb es)
  show ?case
  proof (cases "fst nb \<in> bfs_visited st")
    case True
    with Cons show ?thesis by simp
  next
    case False
    let ?st1 = "st\<lparr>bfs_visited := insert (fst nb) (bfs_visited st),
              bfs_animSteps := bfs_animSteps st @
                 [plainStep node (Some (node, fst nb)) cp False,
                  plainStep (fst nb) None cp False],
              bfs_queue := bfs_queue st @ [(fst nb, cp, dist + snd nb)]\<rparr>"
    from Cons.prems False have "card (N - insert (fst nb) (bfs_visited st)) < card (N - bfs_visited st)"
      by (intro psubset_card_mono) auto
    moreover from Cons.IH[of ?st1] Cons.prems
    have "2 * card (N - bfs_visited (bfs_neighbors node cp dist es ?st1)) + length (bfs_queue (bfs_neighbors node cp dist es ?st1))
     \<le> 2 * card (N - bfs_visited ?st1) + length (bfs_queue ?st1)" by simp
    ultimately show ?thesis using False by simp
  qed
qed

function bfs_loop :: "adjacency \<Rightarrow> bool \<Rightarrow> string \<Rightarrow> bfs_state
    \<Rightarrow> error + (PathResult option \<times> AnimationStep list)" where
  "bfs_loop al rv endId st =
     (case bfs_queue st of
        [] \<Rightarrow> Inr (None, [])
      | entry # q \<Rightarrow>
          (if fst entry = endId then
             Inr (Some \<lparr>path = fst (snd entry) @ [fst entry], totalDistance = Num (snd (snd entry))\<rparr>,
                  bfs_animSteps st)
           else
             (case map_of al (fst entry) of
                None \<Rightarrow> Inl TypeError
              | Some es \<Rightarrow>
                  bfs_loop al rv endId
                    (bfs_neighbors (fst entry) (fst (snd entry) @ [fst entry]) (snd (snd entry))
                       (if rv then rev es else es) (st\<lparr>bfs_queue := q\<rparr>)))))"
  by pat_completeness auto
termination
proof (relation "measure (\<lambda>(al, rv, endId, st). 2 * card (adjNodes al - bfs_visited st) + length (bfs_queue st))", goal_cases)
  case 1
  then show ?case by simp
next
  case (2 al rv endId st entry q es)
  from 2 have "map_of al (fst entry) = Some es" by simp
  then have "fst ` set (if rv then rev es else es) \<subseteq> adjNodes al"
    using adjNodes_lookup by auto
  from bfs_neighbors_measure[OF this finite_adjNodes, of "fst entry" "fst (snd entry) @ [fst entry]"
      "snd (snd entry)" "st\<lparr>bfs_queue := q\<rparr>"] 2
  show ?case by simp
qed

declare bfs_loop.simps [simp del]

definition performBFS :: "string list \<Rightarrow> GraphLink list \<Rightarrow> string \<Rightarrow> string \<Rightarrow> bool
    \<Rightarrow> error + (PathResult option \<times> AnimationStep list)" where
  "performBFS cs ls startId endId rv =
     (if \<not> truthy startId \<or> \<not> truthy endId \<or> startId = endId then Inr (None, [])
      else if \<not> modelled cs ls startId endId then Inl OutsideModel
      else
        (case buildAdjacencyList cs ls rv of
           Inl e \<Rightarrow> Inl e
         | Inr al \<Rightarrow>
             bfs_loop al rv endId
               \<lparr>bfs_visited = {startId}, bfs_queue = [(startId, [], 0)],
                bfs_animSteps = [plainStep startId None [] False]\<rparr>))"


subsection \<open>Walking a predecessor table\<close>

text \<open>
  \<open>previous\<close> maps a city to \<open>null\<close> or to its predecessor; a city that was never
  initialised reads as \<open>undefined\<close>. The walks below loop while the current node is
  truthy, and do not return on a cyclic table: not returning is \<open>None\<close>.
\<close>

definition lookupPrev :: "(string \<rightharpoonup> string option) \<Rightarrow> string \<Rightarrow> string option" where
  "lookupPrev previous k = (case previous k of None \<Rightarrow> None | Some v \<Rightarrow> v)"

partial_function (option) unshiftLoop ::
    "(string \<rightharpoonup> string option) \<Rightarrow> string list \<Rightarrow> string option \<Rightarrow> string list option" where
  "unshiftLoop previous pth cur =
     (case cur of
        None \<Rightarrow> Some pth
      | Some c \<Rightarrow> if truthy c then unshiftLoop previous (c # pth) (lookupPrev previous c)
                  else Some pth)"

partial_function (option) pushLoop ::
    "(string \<rightharpoonup> string option) \<Rightarrow> string list \<Rightarrow> string option \<Rightarrow> string list option" where
  "pushLoop previous pth cur =
     (case cur of
        None \<Rightarrow> Some pth
      | Some c \<Rightarrow> if truthy c then pushLoop previous (pth @ [c]) (lookupPrev previous c)
                  else Some pth)"

declare unshiftLoop.simps [code]
declare pushLoop.simps [code]

definition reconstructCurrentPath :: "(string \<rightharpoonup> string option) \<Rightarrow> string \<Rightarrow> string list option" where
  "reconstructCurrentPath previous current = unshiftLoop previous [] (Some current)"

subsection \<open>Dijkstra\<close>

record dijkstra_state =
  dj_distances :: "string \<rightharpoonup> jsnum"
  dj_previous :: "string \<rightharpoonup> string option"
  dj_unvisited :: "string list"
  dj_animSteps :: "AnimationStep list"

definition getNum :: "(string \<rightharpoonup> jsnum) \<Rightarrow> string \<Rightarrow> jsnum" where
  "getNum m k = (case m k of None \<Rightarrow> Undefined | Some v \<Rightarrow> v)"

text \<open>
  \<open>distances\<close> and \<open>previous\<close> are plain objects in the source and maps here; the two
  agree on the keys that pass \<open>modelled\<close>, the only ones \<open>performDijkstra\<close> hands on.
  \<open>unvisited\<close> is a \<open>Set\<close>; \<open>setAdd\<close> is \<open>Set.add\<close> on a set kept in insertion order.
\<close>

definition setAdd :: "string list \<Rightarrow> string \<Rightarrow> string list" where
  "setAdd xs c = (if c \<in> set xs then xs else xs @ [c])"

definition dijkstraInit :: "string \<Rightarrow> string list \<Rightarrow> dijkstra_state" where
  "dijkstraInit startId cs =
     fold (\<lambda>city st. st\<lparr>dj_distances := (dj_distances st)(city \<mapsto> (if city = startId then Num 0 else Infinity)),
                         dj_previous := (dj_previous st)(city \<mapsto> None),
                         dj_unvisited := setAdd (dj_unvisited st) city\<rparr>)
       cs \<lparr>dj_distances = Map.empty, dj_previous = Map.empty, dj_unvisited = [], dj_animSteps = []\<rparr>"

fun scanMin :: "(string \<rightharpoonup> jsnum) \<Rightarrow> string list \<Rightarrow> string option \<times> jsnum \<Rightarrow> string option \<times> jsnum" where
  "scanMin ds [] acc = acc"
| "scanMin ds (city # rest) acc =
     (if jslt (getNum ds city) (snd acc) then scanMin ds rest (Some city, getNum ds city)
      else scanMin ds rest acc)"

fun dj_relax :: "string \<Rightarrow> (string \<times> int) list \<Rightarrow> dijkstra_state \<Rightarrow> error + dijkstra_state" where
  "dj_relax current [] st = Inr st"
| "dj_relax current (neighbor # rest) st =
     (if fst neighbor \<notin> set (dj_unvisited st) \<or> \<not> truthy current then dj_relax current rest st
      else
        (case reconstructCurrentPath (dj_previous st) current of
           None \<Rightarrow> Inl Diverges
         | Some p1 \<Rightarrow>
             (if jslt (jsadd (getNum (dj_distances st) current) (snd neighbor))
                      (getNum (dj_distances st) (fst neighbor)) then
                (case reconstructCurrentPath ((dj_previous st)(fst neighbor \<mapsto> Some current)) (fst neighbor) of
                   None \<Rightarrow> Inl Diverges
                 | Some p2 \<Rightarrow>
                     dj_relax current rest
                       (st\<lparr>dj_distances := (dj_distances st)(fst neighbor \<mapsto>
                                jsadd (getNum (dj_distances st) current) (snd neighbor)),
                           dj_previous := (dj_previous st)(fst neighbor \<mapsto> Some current),
                           dj_animSteps := dj_animSteps st @
                             [plainStep current (Some (current, fst neighbor)) p1 False,
                              plainStep (fst neighbor) None p2 False]\<rparr>))
              else
                dj_relax current rest
                  (st\<lparr>dj_animSteps := dj_animSteps st @
                        [plainStep current (Some (current, fst neighbor)) p1 False]\<rparr>))))"

lemma dj_relax_unvisited: "dj_relax current es st = Inr st' \<Longrightarrow> dj_unvisited st' = dj_unvisited st"
proof (induction es arbitrary: st)
  case Nil
  then show ?case by simp
next
  case (Cons nb es)
  show ?case
  proof (cases "fst nb \<notin> set (dj_unvisited st) \<or> \<not> truthy current")
    case True
    with Cons show ?thesis by simp
  next
    case False
    with Cons.prems obtain p1 where p1: "reconstructCurrentPath (dj_previous st) current = Some p1"
      by (auto split: option.splits)
    show ?thesis
    proof (cases "jslt (jsadd (getNum (dj_distances st) current) (snd nb)) (getNum (dj_distances st) (fst nb))")
      case True
      with Cons.prems False p1 obtain p2 where
        p2: "reconstructCurrentPath ((dj_previous st)(fst nb \<mapsto> Some current)) (fst nb) = Some p2"
        by (auto split: option.splits)
      from Cons.prems False p1 True p2 Cons.IH show ?thesis
        by (simp del: fun_upd_apply)
    next
      case nlt: False
      from Cons.prems False p1 nlt Cons.IH show ?thesis
        by simp
    qed
  qed
qed

lemma scanMin_mem: "scanMin ds xs acc = (Some c, m) \<Longrightarrow> c \<in> set xs \<or> fst acc = Some c"
  by (induction ds xs acc rule: scanMin.induct) (auto split: if_splits)

function dj_loop :: "adjacency \<Rightarrow> string \<Rightarrow> dijkstra_state \<Rightarrow> error + dijkstra_state" where
  "dj_loop al endId st =
     (if dj_unvisited st = [] then Inr st
      else
        (case fst (scanMin (dj_distances st) (dj_unvisited st) (None, Infinity)) of
           None \<Rightarrow> Inr st
         | Some current \<Rightarrow>
             (if getNum (dj_distances st) current = Infinity then Inr st
              else if current = endId then Inr st
              else
                (case map_of al current of
                   None \<Rightarrow> Inl TypeError
                 | Some es \<Rightarrow>
                     (case dj_relax current es
                             (st\<lparr>dj_unvisited := filter (\<lambda>c. c \<noteq> current) (dj_unvisited st)\<rparr>) of
                        Inl e \<Rightarrow> Inl e
                      | Inr st1 \<Rightarrow> dj_loop al endId st1)))))"
  by pat_completeness auto
termination
proof (relation "measure (\<lambda>(al, endId, st). length (dj_unvisited st))", goal_cases)
  case 1
  then show ?case by simp
next
  case (2 al endId st current es st1)
  from 2 have "dj_unvisited st1 = filter (\<lambda>c. c \<noteq> current) (dj_unvisited st)"
    by (auto dest: dj_relax_unvisited)
  moreover from 2 have "current \<in> set (dj_unvisited st)"
    using scanMin_mem[of "dj_distances st" "dj_unvisited st" "(None, Infinity)" current]
    by (metis fst_conv option.distinct(1) prod.collapse)
  ultimately show ?case
    by (simp add: length_filter_less)
qed

declare dj_loop.simps [simp del]

definition performDijkstra :: "string list \<Rightarrow> GraphLink list \<Rightarrow> string \<Rightarrow> string \<Rightarrow> bool
    \<Rightarrow> error + (PathResult option \<times> AnimationStep list)" where
  "performDijkstra cs ls startId endId rv =
     (if \<not> truthy startId \<or> \<not> truthy endId \<or> startId = endId then Inr (None, [])
      else if \<not> modelled cs ls startId endId then Inl OutsideModel
      else
        (case buildAdjacencyList cs ls rv of
           Inl e \<Rightarrow> Inl e
         | Inr al \<Rightarrow>
             (case dj_loop al endId
                     ((dijkstraInit startId cs)\<lparr>dj_animSteps := [plainStep startId None [] False]\<rparr>) of
                Inl e \<Rightarrow> Inl e
              | Inr st \<Rightarrow>
                  (if dj_previous st endId \<noteq> Some None \<or> startId = endId then
                     (case unshiftLoop (dj_previous st) [] (Some endId) of
                        None \<Rightarrow> Inl Diverges
                      | Some p \<Rightarrow>
                          Inr (Some \<lparr>path = p, totalDistance = getNum (dj_distances st) endId\<rparr>,
                               dj_animSteps st))
                   else Inr (None, [])))))"



subsection \<open>Wave and bidirectional wave\<close>

text \<open>
  The wave engine's tables; the bidirectional engine keeps one such set of tables for
  each direction. \<open>ss_waveEdges\<close> and \<open>ss_nextWaveNodes\<close> are the arrays that are
  created afresh for each wave. \<open>previous\<close> and \<open>distances\<close> are plain objects in the
  source and maps here (a key that was never written reads \<open>None\<close>, for \<open>undefined\<close>); the
  two agree on the keys that pass \<open>modelled\<close>, the only ones \<open>performWave\<close> and
  \<open>performBidirectionalWave\<close> hand on.
\<close>

record search_side =
  ss_visited :: "string set"
  ss_previous :: "string \<rightharpoonup> string option"
  ss_distances :: "string \<rightharpoonup> jsnum"
  ss_queue :: "string list"
  ss_waveCounter :: nat
  ss_waveEdges :: "(string \<times> string) list"
  ss_nextWaveNodes :: "string list"
  ss_foundPath :: bool
  ss_meetingNode :: "string option"

definition waveStep :: "string \<Rightarrow> (string \<times> string) option \<Rightarrow> string list \<Rightarrow> string list
    \<Rightarrow> (string \<times> string) list \<Rightarrow> string list \<Rightarrow> nat option \<Rightarrow> bool option \<Rightarrow> AnimationStep" where
  "waveStep n e p wn we nw num bw =
     \<lparr>currentNode = n, visitedEdge = e, currentPath = p, isBacktrack = False,
      waveNodes = Some wn, waveEdges = Some we, nextWaveNodes = Some nw, waveNumber = num,
      isBackwardWave = bw\<rparr>"

definition sideInit :: "string \<Rightarrow> string list \<Rightarrow> search_side" where
  "sideInit root cs =
     \<lparr>ss_visited = {root},
      ss_previous = (\<lambda>city. if city \<in> set cs then Some None else None),
      ss_distances = (\<lambda>city. if city \<in> set cs then Some (if city = root then Num 0 else Infinity) else None),
      ss_queue = [root], ss_waveCounter = 0, ss_waveEdges = [], ss_nextWaveNodes = [],
      ss_foundPath = False, ss_meetingNode = None\<rparr>"

fun wave_dequeue :: "(string \<rightharpoonup> string option) \<Rightarrow> string \<Rightarrow> string list
    \<Rightarrow> error + (string list \<times> string list \<times> bool)" where
  "wave_dequeue previous endId [] = Inr ([], [], False)"
| "wave_dequeue previous endId (current # q) =
     (case reconstructCurrentPath previous current of
        None \<Rightarrow> Inl Diverges
      | Some cp \<Rightarrow>
          (if current = endId then Inr ([current], q, True)
           else (case wave_dequeue previous endId q of
                   Inl e \<Rightarrow> Inl e
                 | Inr r \<Rightarrow> Inr (current # fst r, snd r))))"

fun wave_neighbors :: "string \<Rightarrow> (string \<times> int) list \<Rightarrow> search_side \<Rightarrow> search_side" where
  "wave_neighbors current [] st = st"
| "wave_neighbors current (neighbor # rest) st =
     (if fst neighbor \<notin> ss_visited st then
        wave_neighbors current rest
          (st\<lparr>ss_visited := insert (fst neighbor) (ss_visited st),
              ss_previous := (ss_previous st)(fst neighbor \<mapsto> Some current),
              ss_distances := (ss_distances st)(fst neighbor \<mapsto>
                                jsadd (getNum (ss_distances st) current) (snd neighbor)),
              ss_waveEdges := ss_waveEdges st @ [(current, fst neighbor)],
              ss_nextWaveNodes := ss_nextWaveNodes st @ [fst neighbor],
              ss_queue := ss_queue st @ [fst neighbor]\<rparr>)
      else wave_neighbors current rest st)"

fun wave_expand :: "adjacency \<Rightarrow> bool \<Rightarrow> string list \<Rightarrow> search_side \<Rightarrow> error + search_side" where
  "wave_expand al rv [] st = Inr st"
| "wave_expand al rv (current # rest) st =
     (case map_of al current of
        None \<Rightarrow> Inl TypeError
      | Some es \<Rightarrow> wave_expand al rv rest (wave_neighbors current (if rv then rev es else es) st))"

definition wave_iteration :: "adjacency \<Rightarrow> bool \<Rightarrow> string \<Rightarrow> search_side \<times> AnimationStep list
    \<Rightarrow> error + (search_side \<times> AnimationStep list)" where
  "wave_iteration al rv endId sa =
     (case wave_dequeue (ss_previous (fst sa)) endId (ss_queue (fst sa)) of
        Inl e \<Rightarrow> Inl e
      | Inr r \<Rightarrow>
          (case wave_expand al rv (fst r)
                  ((fst sa)\<lparr>ss_queue := fst (snd r), ss_foundPath := snd (snd r),
                            ss_waveEdges := [], ss_nextWaveNodes := []\<rparr>) of
             Inl e \<Rightarrow> Inl e
           | Inr st1 \<Rightarrow>
               (if ss_waveEdges st1 \<noteq> [] then
                  (case (case fst r of [] \<Rightarrow> Some [] | c # _ \<Rightarrow> reconstructCurrentPath (ss_previous st1) c) of
                     None \<Rightarrow> Inl Diverges
                   | Some compositePath \<Rightarrow>
                       Inr (st1\<lparr>ss_waveCounter := Suc (ss_waveCounter st1)\<rparr>,
                            snd sa @
                            [waveStep (case fst r of [] \<Rightarrow> [] | c # _ \<Rightarrow> c)
                               (Some (hd (ss_waveEdges st1))) compositePath (fst r)
                               (ss_waveEdges st1) (ss_nextWaveNodes st1)
                               (Some (ss_waveCounter st1)) None]))
                else Inr (st1, snd sa))))"

lemma wave_neighbors_measure:
  "fst ` set es \<subseteq> N \<Longrightarrow> finite N \<Longrightarrow>
   2 * card (N - ss_visited (wave_neighbors current es st)) + length (ss_queue (wave_neighbors current es st))
     \<le> 2 * card (N - ss_visited st) + length (ss_queue st)"
proof (induction es arbitrary: st)
  case Nil
  then show ?case by simp
next
  case (Cons nb es)
  show ?case
  proof (cases "fst nb \<in> ss_visited st")
    case True
    with Cons show ?thesis by simp
  next
    case False
    let ?st1 = "st\<lparr>ss_visited := insert (fst nb) (ss_visited st),
              ss_previous := (ss_previous st)(fst nb \<mapsto> Some current),
              ss_distances := (ss_distances st)(fst nb \<mapsto>
                                jsadd (getNum (ss_distances st) current) (snd nb)),
              ss_waveEdges := ss_waveEdges st @ [(current, fst nb)],
              ss_nextWaveNodes := ss_nextWaveNodes st @ [fst nb],
              ss_queue := ss_queue st @ [fst nb]\<rparr>"
    from Cons.prems False have "card (N - insert (fst nb) (ss_visited st)) < card (N - ss_visited st)"
      by (intro psubset_card_mono) auto
    moreover from Cons.IH[of ?st1] Cons.prems
    have "2 * card (N - ss_visited (wave_neighbors current es ?st1)) + length (ss_queue (wave_neighbors current es ?st1))
     \<le> 2 * card (N - ss_visited ?st1) + length (ss_queue ?st1)" by simp
    ultimately show ?thesis using False by simp
  qed
qed

lemma wave_expand_measure:
  "wave_expand al rv w st = Inr st' \<Longrightarrow>
   2 * card (adjNodes al - ss_visited st') + length (ss_queue st')
     \<le> 2 * card (adjNodes al - ss_visited st) + length (ss_queue st)"
proof (induction w arbitrary: st)
  case Nil
  then show ?case by simp
next
  case (Cons c w)
  from Cons.prems obtain es where es: "map_of al c = Some es"
    by (auto split: option.splits)
  let ?st1 = "wave_neighbors c (if rv then rev es else es) st"
  from es have "fst ` set (if rv then rev es else es) \<subseteq> adjNodes al"
    using adjNodes_lookup by auto
  from wave_neighbors_measure[OF this finite_adjNodes, of c st]
  have m1: "2 * card (adjNodes al - ss_visited ?st1) + length (ss_queue ?st1)
     \<le> 2 * card (adjNodes al - ss_visited st) + length (ss_queue st)" .
  from Cons.prems es have "wave_expand al rv w ?st1 = Inr st'" by simp
  from Cons.IH[OF this] m1 show ?case by linarith
qed

lemma wave_dequeue_length:
  "wave_dequeue previous endId q = Inr r \<Longrightarrow> q \<noteq> [] \<Longrightarrow> length (fst (snd r)) < length q"
proof (induction q arbitrary: r)
  case Nil
  then show ?case by simp
next
  case (Cons c q)
  from Cons.prems obtain cp where cp: "reconstructCurrentPath previous c = Some cp"
    by (auto split: option.splits)
  show ?case
  proof (cases "c = endId")
    case True
    with Cons.prems cp show ?thesis by auto
  next
    case False
    with Cons.prems cp obtain r' where r': "wave_dequeue previous endId q = Inr r'" and r: "r = (c # fst r', snd r')"
      by (auto split: sum.splits)
    show ?thesis
    proof (cases q)
      case Nil
      with r' r show ?thesis by auto
    next
      case (Cons a list)
      with Cons.IH[OF r'] r show ?thesis by auto
    qed
  qed
qed

lemma wave_iteration_measure:
  assumes "wave_iteration al rv endId sa = Inr sa'" "ss_queue (fst sa) \<noteq> []"
  shows "2 * card (adjNodes al - ss_visited (fst sa')) + length (ss_queue (fst sa'))
     < 2 * card (adjNodes al - ss_visited (fst sa)) + length (ss_queue (fst sa))"
proof -
  from assms(1) obtain r where r: "wave_dequeue (ss_previous (fst sa)) endId (ss_queue (fst sa)) = Inr r"
    by (auto simp: wave_iteration_def split: sum.splits)
  let ?st0 = "(fst sa)\<lparr>ss_queue := fst (snd r), ss_foundPath := snd (snd r),
                            ss_waveEdges := [], ss_nextWaveNodes := []\<rparr>"
  from assms(1) r obtain st1 where st1: "wave_expand al rv (fst r) ?st0 = Inr st1"
    by (auto simp: wave_iteration_def split: sum.splits)
  from assms(1) r st1 have eq: "ss_visited (fst sa') = ss_visited st1" "ss_queue (fst sa') = ss_queue st1"
    by (auto simp: wave_iteration_def split: if_splits option.splits)
  from wave_expand_measure[OF st1] wave_dequeue_length[OF r assms(2)] eq
  show ?thesis by simp
qed

function wave_loop :: "adjacency \<Rightarrow> bool \<Rightarrow> string \<Rightarrow> search_side \<times> AnimationStep list
    \<Rightarrow> error + (search_side \<times> AnimationStep list)" where
  "wave_loop al rv endId sa =
     (if ss_queue (fst sa) \<noteq> [] \<and> \<not> ss_foundPath (fst sa) then
        (case wave_iteration al rv endId sa of
           Inl e \<Rightarrow> Inl e
         | Inr sa' \<Rightarrow> wave_loop al rv endId sa')
      else Inr sa)"
  by pat_completeness auto
termination
proof (relation "measure (\<lambda>(al, rv, endId, sa).
          2 * card (adjNodes al - ss_visited (fst sa)) + length (ss_queue (fst sa)))", goal_cases)
  case 1
  then show ?case by simp
next
  case (2 al rv endId sa sa')
  then show ?case using wave_iteration_measure[of al rv endId sa sa'] by simp
qed

declare wave_loop.simps [simp del]

definition performWave :: "string list \<Rightarrow> GraphLink list \<Rightarrow> string \<Rightarrow> string \<Rightarrow> bool
    \<Rightarrow> error + (PathResult option \<times> AnimationStep list)" where
  "performWave cs ls startId endId rv =
     (if \<not> truthy startId \<or> \<not> truthy endId \<or> startId = endId then Inr (None, [])
      else if \<not> modelled cs ls startId endId then Inl OutsideModel
      else
        (case buildAdjacencyList cs ls rv of
           Inl e \<Rightarrow> Inl e
         | Inr al \<Rightarrow>
             (case wave_loop al rv endId (sideInit startId cs, [plainStep startId None [] False]) of
                Inl e \<Rightarrow> Inl e
              | Inr sa \<Rightarrow>
                  (if ss_foundPath (fst sa) then
                     (case reconstructCurrentPath (ss_previous (fst sa)) endId of
                        None \<Rightarrow> Inl Diverges
                      | Some p \<Rightarrow>
                          Inr (Some \<lparr>path = p, totalDistance = getNum (ss_distances (fst sa)) endId\<rparr>,
                               snd sa))
                   else Inr (None, [])))))"



text \<open>
  The bidirectional engine runs the same wave step for the forward half and for the
  backward half, each on its own tables and against the other half's visited set;
  \<open>backward\<close> is the \<open>isBackwardWave\<close> tag of the step it logs. Both halves read the
  one adjacency list.
\<close>

fun bidi_dequeue :: "string set \<Rightarrow> string list \<Rightarrow> string list \<times> string list \<times> string option" where
  "bidi_dequeue other [] = ([], [], None)"
| "bidi_dequeue other (current # q) =
     (if current \<in> other then ([current], q, Some current)
      else (case bidi_dequeue other q of r \<Rightarrow> (current # fst r, snd r)))"

fun bidi_neighbors :: "string set \<Rightarrow> string \<Rightarrow> (string \<times> int) list \<Rightarrow> search_side \<Rightarrow> search_side" where
  "bidi_neighbors other current [] st = st"
| "bidi_neighbors other current (neighbor # rest) st =
     (if fst neighbor \<notin> ss_visited st then
        (if fst neighbor \<in> other then
           st\<lparr>ss_visited := insert (fst neighbor) (ss_visited st),
              ss_previous := (ss_previous st)(fst neighbor \<mapsto> Some current),
              ss_distances := (ss_distances st)(fst neighbor \<mapsto>
                                jsadd (getNum (ss_distances st) current) (snd neighbor)),
              ss_waveEdges := ss_waveEdges st @ [(current, fst neighbor)],
              ss_nextWaveNodes := ss_nextWaveNodes st @ [fst neighbor],
              ss_queue := ss_queue st @ [fst neighbor],
              ss_meetingNode := Some (fst neighbor), ss_foundPath := True\<rparr>
         else
           bidi_neighbors other current rest
             (st\<lparr>ss_visited := insert (fst neighbor) (ss_visited st),
                 ss_previous := (ss_previous st)(fst neighbor \<mapsto> Some current),
                 ss_distances := (ss_distances st)(fst neighbor \<mapsto>
                                   jsadd (getNum (ss_distances st) current) (snd neighbor)),
                 ss_waveEdges := ss_waveEdges st @ [(current, fst neighbor)],
                 ss_nextWaveNodes := ss_nextWaveNodes st @ [fst neighbor],
                 ss_queue := ss_queue st @ [fst neighbor]\<rparr>))
      else bidi_neighbors other current rest st)"

fun bidi_expand :: "adjacency \<Rightarrow> bool \<Rightarrow> string set \<Rightarrow> string list \<Rightarrow> search_side \<Rightarrow> error + search_side" where
  "bidi_expand al rv other [] st = Inr st"
| "bidi_expand al rv other (current # rest) st =
     (case map_of al current of
        None \<Rightarrow> Inl TypeError
      | Some es \<Rightarrow>
          (case bidi_neighbors other current (if rv then rev es else es) st of st1 \<Rightarrow>
             if ss_foundPath st1 then Inr st1 else bidi_expand al rv other rest st1))"

definition bidi_phase :: "adjacency \<Rightarrow> bool \<Rightarrow> bool \<Rightarrow> string set \<Rightarrow> search_side \<times> AnimationStep list
    \<Rightarrow> error + (search_side \<times> AnimationStep list)" where
  "bidi_phase al rv backward other sa =
     (case bidi_dequeue other (ss_queue (fst sa)) of r \<Rightarrow>
        (case snd (snd r) of
           Some meeting \<Rightarrow>
             Inr ((fst sa)\<lparr>ss_queue := fst (snd r), ss_meetingNode := Some meeting, ss_foundPath := True\<rparr>,
                  snd sa)
         | None \<Rightarrow>
             (case bidi_expand al rv other (fst r)
                     ((fst sa)\<lparr>ss_queue := fst (snd r), ss_waveEdges := [], ss_nextWaveNodes := []\<rparr>) of
                Inl e \<Rightarrow> Inl e
              | Inr st1 \<Rightarrow>
                  (if ss_waveEdges st1 \<noteq> [] then
                     Inr (st1\<lparr>ss_waveCounter := Suc (ss_waveCounter st1)\<rparr>,
                          snd sa @
                          [waveStep [] None [] (fst r) (ss_waveEdges st1) (ss_nextWaveNodes st1)
                             (Some (ss_waveCounter st1)) (if backward then Some True else None)])
                   else Inr (st1, snd sa)))))"

record bidi_state =
  bd_forward :: search_side
  bd_backward :: search_side
  bd_animSteps :: "AnimationStep list"

definition bidi_forward :: "adjacency \<Rightarrow> bool \<Rightarrow> bidi_state \<Rightarrow> error + bidi_state" where
  "bidi_forward al rv st =
     (if ss_queue (bd_forward st) \<noteq> [] then
        (case bidi_phase al rv False (ss_visited (bd_backward st)) (bd_forward st, bd_animSteps st) of
           Inl e \<Rightarrow> Inl e
         | Inr sa \<Rightarrow> Inr (st\<lparr>bd_forward := fst sa, bd_animSteps := snd sa\<rparr>))
      else Inr st)"

definition bidi_backward :: "adjacency \<Rightarrow> bool \<Rightarrow> bidi_state \<Rightarrow> error + bidi_state" where
  "bidi_backward al rv st =
     (if ss_queue (bd_backward st) \<noteq> [] then
        (case bidi_phase al rv True (ss_visited (bd_forward st)) (bd_backward st, bd_animSteps st) of
           Inl e \<Rightarrow> Inl e
         | Inr sa \<Rightarrow> Inr (st\<lparr>bd_backward := fst sa, bd_animSteps := snd sa\<rparr>))
      else Inr st)"

definition bd_found :: "bidi_state \<Rightarrow> bool" where
  "bd_found st = (ss_foundPath (bd_forward st) \<or> ss_foundPath (bd_backward st))"

definition bd_measure :: "adjacency \<Rightarrow> bidi_state \<Rightarrow> nat" where
  "bd_measure al st =
     2 * card (adjNodes al - ss_visited (bd_forward st)) + length (ss_queue (bd_forward st)) +
     (2 * card (adjNodes al - ss_visited (bd_backward st)) + length (ss_queue (bd_backward st)))"

lemma bidi_neighbors_measure:
  "fst ` set es \<subseteq> N \<Longrightarrow> finite N \<Longrightarrow>
   2 * card (N - ss_visited (bidi_neighbors other current es st)) + length (ss_queue (bidi_neighbors other current es st))
     \<le> 2 * card (N - ss_visited st) + length (ss_queue st)"
proof (induction es arbitrary: st)
  case Nil
  then show ?case by simp
next
  case (Cons nb es)
  show ?case
  proof (cases "fst nb \<in> ss_visited st")
    case True
    with Cons show ?thesis by simp
  next
    case False
    let ?st1 = "st\<lparr>ss_visited := insert (fst nb) (ss_visited st),
              ss_previous := (ss_previous st)(fst nb \<mapsto> Some current),
              ss_distances := (ss_distances st)(fst nb \<mapsto>
                                jsadd (getNum (ss_distances st) current) (snd nb)),
              ss_waveEdges := ss_waveEdges st @ [(current, fst nb)],
              ss_nextWaveNodes := ss_nextWaveNodes st @ [fst nb],
              ss_queue := ss_queue st @ [fst nb]\<rparr>"
    from Cons.prems False have c: "card (N - insert (fst nb) (ss_visited st)) < card (N - ss_visited st)"
      by (intro psubset_card_mono) auto
    show ?thesis
    proof (cases "fst nb \<in> other")
      case True
      with False c show ?thesis by simp
    next
      case nother: False
      from Cons.IH[of ?st1] Cons.prems
      have "2 * card (N - ss_visited (bidi_neighbors other current es ?st1)) + length (ss_queue (bidi_neighbors other current es ?st1))
       \<le> 2 * card (N - ss_visited ?st1) + length (ss_queue ?st1)" by simp
      with c False nother show ?thesis by simp
    qed
  qed
qed

lemma bidi_expand_measure:
  "bidi_expand al rv other w st = Inr st' \<Longrightarrow>
   2 * card (adjNodes al - ss_visited st') + length (ss_queue st')
     \<le> 2 * card (adjNodes al - ss_visited st) + length (ss_queue st)"
proof (induction w arbitrary: st)
  case Nil
  then show ?case by simp
next
  case (Cons c w)
  from Cons.prems obtain es where es: "map_of al c = Some es"
    by (auto split: option.splits)
  let ?st1 = "bidi_neighbors other c (if rv then rev es else es) st"
  from es have "fst ` set (if rv then rev es else es) \<subseteq> adjNodes al"
    using adjNodes_lookup by auto
  from bidi_neighbors_measure[OF this finite_adjNodes, of other c st]
  have m1: "2 * card (adjNodes al - ss_visited ?st1) + length (ss_queue ?st1)
     \<le> 2 * card (adjNodes al - ss_visited st) + length (ss_queue st)" .
  show ?case
  proof (cases "ss_foundPath ?st1")
    case True
    with Cons.prems es have "st' = ?st1" by simp
    with m1 show ?thesis by simp
  next
    case False
    with Cons.prems es have "bidi_expand al rv other w ?st1 = Inr st'" by simp
    from Cons.IH[OF this] m1 show ?thesis by linarith
  qed
qed

lemma bidi_dequeue_length:
  "q \<noteq> [] \<Longrightarrow> length (fst (snd (bidi_dequeue other q))) < length q"
proof (induction q)
  case Nil
  then show ?case by simp
next
  case (Cons c q)
  show ?case
  proof (cases q)
    case Nil
    then show ?thesis by simp
  next
    case (Cons a list)
    with Cons.IH show ?thesis by simp
  qed
qed

lemma bidi_phase_measure:
  assumes "bidi_phase al rv backward other sa = Inr sa'" "ss_queue (fst sa) \<noteq> []"
  shows "2 * card (adjNodes al - ss_visited (fst sa')) + length (ss_queue (fst sa'))
     < 2 * card (adjNodes al - ss_visited (fst sa)) + length (ss_queue (fst sa))"
proof (cases "snd (snd (bidi_dequeue other (ss_queue (fst sa))))")
  case None
  let ?r = "bidi_dequeue other (ss_queue (fst sa))"
  let ?st0 = "(fst sa)\<lparr>ss_queue := fst (snd ?r), ss_waveEdges := [], ss_nextWaveNodes := []\<rparr>"
  from assms(1) None obtain st1 where st1: "bidi_expand al rv other (fst ?r) ?st0 = Inr st1"
    by (auto simp: bidi_phase_def split: sum.splits)
  from assms(1) None st1 have eq: "ss_visited (fst sa') = ss_visited st1" "ss_queue (fst sa') = ss_queue st1"
    by (auto simp: bidi_phase_def split: if_splits)
  from bidi_expand_measure[OF st1] bidi_dequeue_length[OF assms(2), of other] eq
  show ?thesis by simp
next
  case (Some m)
  with assms(1) have "ss_visited (fst sa') = ss_visited (fst sa)"
    "ss_queue (fst sa') = fst (snd (bidi_dequeue other (ss_queue (fst sa))))"
    by (auto simp: bidi_phase_def)
  with bidi_dequeue_length[OF assms(2), of other] show ?thesis by simp
qed

lemma bidi_forward_measure:
  assumes "bidi_forward al rv st = Inr st'"
  shows "bd_measure al st' \<le> bd_measure al st"
    and "ss_queue (bd_forward st) \<noteq> [] \<Longrightarrow> bd_measure al st' < bd_measure al st"
    and "ss_queue (bd_backward st') = ss_queue (bd_backward st)"
proof -
  show "ss_queue (bd_backward st') = ss_queue (bd_backward st)"
    using assms by (auto simp: bidi_forward_def split: if_splits sum.splits)
  have "ss_queue (bd_forward st) \<noteq> [] \<longrightarrow> bd_measure al st' < bd_measure al st"
  proof
    assume q: "ss_queue (bd_forward st) \<noteq> []"
    with assms obtain sa where sa: "bidi_phase al rv False (ss_visited (bd_backward st)) (bd_forward st, bd_animSteps st) = Inr sa"
       and st': "st' = st\<lparr>bd_forward := fst sa, bd_animSteps := snd sa\<rparr>"
      by (auto simp: bidi_forward_def split: sum.splits)
    from bidi_phase_measure[OF sa] q st' show "bd_measure al st' < bd_measure al st"
      by (simp add: bd_measure_def)
  qed
  moreover have "ss_queue (bd_forward st) = [] \<longrightarrow> st' = st"
    using assms by (auto simp: bidi_forward_def)
  ultimately show "bd_measure al st' \<le> bd_measure al st"
    and "ss_queue (bd_forward st) \<noteq> [] \<Longrightarrow> bd_measure al st' < bd_measure al st"
    by (cases "ss_queue (bd_forward st) = []"; simp)+
qed

lemma bidi_backward_measure:
  assumes "bidi_backward al rv st = Inr st'"
  shows "bd_measure al st' \<le> bd_measure al st"
    and "ss_queue (bd_backward st) \<noteq> [] \<Longrightarrow> bd_measure al st' < bd_measure al st"
proof -
  have "ss_queue (bd_backward st) \<noteq> [] \<longrightarrow> bd_measure al st' < bd_measure al st"
  proof
    assume q: "ss_queue (bd_backward st) \<noteq> []"
    with assms obtain sa where sa: "bidi_phase al rv True (ss_visited (bd_forward st)) (bd_backward st, bd_animSteps st) = Inr sa"
       and st': "st' = st\<lparr>bd_backward := fst sa, bd_animSteps := snd sa\<rparr>"
      by (auto simp: bidi_backward_def split: sum.splits)
    from bidi_phase_measure[OF sa] q st' show "bd_measure al st' < bd_measure al st"
      by (simp add: bd_measure_def)
  qed
  moreover have "ss_queue (bd_backward st) = [] \<longrightarrow> st' = st"
    using assms by (auto simp: bidi_backward_def)
  ultimately show "bd_measure al st' \<le> bd_measure al st"
    and "ss_queue (bd_backward st) \<noteq> [] \<Longrightarrow> bd_measure al st' < bd_measure al st"
    by (cases "ss_queue (bd_backward st) = []"; simp)+
qed

function bidi_loop :: "adjacency \<Rightarrow> bool \<Rightarrow> bidi_state \<Rightarrow> error + bidi_state" where
  "bidi_loop al rv st =
     (if (ss_queue (bd_forward st) \<noteq> [] \<or> ss_queue (bd_backward st) \<noteq> []) \<and> \<not> bd_found st then
        (case bidi_forward al rv st of
           Inl e \<Rightarrow> Inl e
         | Inr st1 \<Rightarrow>
             (if bd_found st1 then Inr st1
              else
                (case bidi_backward al rv st1 of
                   Inl e \<Rightarrow> Inl e
                 | Inr st2 \<Rightarrow> bidi_loop al rv st2)))
      else Inr st)"
  by pat_completeness auto
termination
proof (relation "measure (\<lambda>(al, rv, st). bd_measure al st)", goal_cases)
  case 1
  then show ?case by simp
next
  case (2 al rv st st1 st2)
  from 2 have f: "bidi_forward al rv st = Inr st1" and b: "bidi_backward al rv st1 = Inr st2"
    by simp_all
  from 2 have "ss_queue (bd_forward st) \<noteq> [] \<or> ss_queue (bd_backward st) \<noteq> []" by simp
  then have "bd_measure al st2 < bd_measure al st"
  proof
    assume "ss_queue (bd_forward st) \<noteq> []"
    from bidi_forward_measure(2)[OF f this] bidi_backward_measure(1)[OF b]
    show ?thesis by simp
  next
    assume "ss_queue (bd_backward st) \<noteq> []"
    with bidi_forward_measure(3)[OF f] have "ss_queue (bd_backward st1) \<noteq> []" by simp
    from bidi_backward_measure(2)[OF b this] bidi_forward_measure(1)[OF f]
    show ?thesis by simp
  qed
  then show ?case by simp
qed

declare bidi_loop.simps [simp del]

definition findLink :: "GraphLink list \<Rightarrow> string \<Rightarrow> string \<Rightarrow> GraphLink option" where
  "findLink ls a b =
     List.find (\<lambda>l. (source l = a \<and> target l = b) \<or> (source l = b \<and> target l = a)) ls"

fun recomputeDistance :: "GraphLink list \<Rightarrow> string list \<Rightarrow> int \<Rightarrow> int" where
  "recomputeDistance ls (a # b # rest) acc =
     recomputeDistance ls (b # rest)
       (case findLink ls a b of None \<Rightarrow> acc | Some link \<Rightarrow> acc + distance link)"
| "recomputeDistance ls [a] acc = acc"
| "recomputeDistance ls [] acc = acc"

definition bidiInit :: "string \<Rightarrow> string \<Rightarrow> string list \<Rightarrow> bidi_state" where
  "bidiInit startId endId cs =
     \<lparr>bd_forward = sideInit startId cs, bd_backward = sideInit endId cs,
      bd_animSteps = [waveStep startId None [startId] [startId] [] [] None None,
                      waveStep endId None [endId] [endId] [] [] None None]\<rparr>"

definition bd_meetingNode :: "bidi_state \<Rightarrow> string option" where
  "bd_meetingNode st =
     (if ss_foundPath (bd_forward st) then ss_meetingNode (bd_forward st)
      else ss_meetingNode (bd_backward st))"

definition performBidirectionalWave :: "string list \<Rightarrow> GraphLink list \<Rightarrow> string \<Rightarrow> string \<Rightarrow> bool
    \<Rightarrow> error + (PathResult option \<times> AnimationStep list)" where
  "performBidirectionalWave cs ls startId endId rv =
     (if \<not> truthy startId \<or> \<not> truthy endId \<or> startId = endId then Inr (None, [])
      else if \<not> modelled cs ls startId endId then Inl OutsideModel
      else
        (case buildAdjacencyList cs ls rv of
           Inl e \<Rightarrow> Inl e
         | Inr al \<Rightarrow>
             (case bidi_loop al rv (bidiInit startId endId cs) of
                Inl e \<Rightarrow> Inl e
              | Inr st \<Rightarrow>
                  (case bd_meetingNode st of
                     None \<Rightarrow> Inr (None, [])
                   | Some meetingNode \<Rightarrow>
                       (if bd_found st \<and> truthy meetingNode then
                          (case unshiftLoop (ss_previous (bd_forward st)) [] (Some meetingNode) of
                             None \<Rightarrow> Inl Diverges
                           | Some forwardPath \<Rightarrow>
                               (case pushLoop (ss_previous (bd_backward st)) []
                                       (lookupPrev (ss_previous (bd_backward st)) meetingNode) of
                                  None \<Rightarrow> Inl Diverges
                                | Some backwardPath \<Rightarrow>
                                    Inr (Some \<lparr>path = forwardPath @ backwardPath,
                                               totalDistance =
                                                 Num (recomputeDistance ls (forwardPath @ backwardPath) 0)\<rparr>,
                                         bd_animSteps st @
                                         [waveStep meetingNode None [] [meetingNode] [] [] None None,
                                          waveStep [] None (forwardPath @ backwardPath) [] [] [] None None])))
                        else Inr (None, []))))))"

subsection \<open>Strategy dispatch\<close>

text \<open>
  \<open>findPath\<close> calls the engine of the selected algorithm; \<open>computePath\<close> is that
  dispatch, with the cities, the links, the selection and the reverse-traversal flag of
  the component state as arguments and the stored result and trace as its value.
\<close>

datatype Algorithm = DFS | BFS | Dijkstra | Wave | BidirectionalWave

fun computePath :: "string list \<Rightarrow> GraphLink list \<Rightarrow> string \<Rightarrow> string \<Rightarrow> Algorithm \<Rightarrow> bool
    \<Rightarrow> error + (PathResult option \<times> AnimationStep list)" where
  "computePath cs ls startId endId DFS rv = performDFS cs ls startId endId rv"
| "computePath cs ls startId endId BFS rv = performBFS cs ls startId endId rv"
| "computePath cs ls startId endId Dijkstra rv = performDijkstra cs ls startId endId rv"
| "computePath cs ls startId endId Wave rv = performWave cs ls startId endId rv"
| "computePath cs ls startId endId BidirectionalWave rv = performBidirectionalWave cs ls startId endId rv"


section \<open>Animation trace player\<close>

fun pathEdgeKeys :: "string list \<Rightarrow> string set" where
  "pathEdgeKeys (a # b # rest) = insert (edgeKey a b) (insert (edgeKey b a) (pathEdgeKeys (b # rest)))"
| "pathEdgeKeys [a] = {}"
| "pathEdgeKeys [] = {}"



text \<open>The component's state before any data is loaded (the \<open>useState\<close> initial values).\<close>

definition initialState :: AppState where
  "initialState =
     \<lparr>cities = [], connections = [], nodes = [], links = [], selectedCity = None,
      startCity = [], endCity = [], dfsPath = None, pathNodes = {}, pathEdges = {},
      animationSteps = [], currentStepIndex = - 1, isAnimating = False,
      hl_currentNode = None, hl_currentEdge = None, visitedNodes = {}, visitedEdges = {},
      currentPathAnimation = [], isBacktracking = False, edgeToWaveMap = Map.empty,
      isCreatingEdge = False, edgeSource = [], edgeTarget = []\<rparr>"

section \<open>The scenario graph\<close>

definition scenarioLinks :: "GraphLink list" where
  "scenarioLinks =
     [\<lparr>source = ''A'', target = ''B'', distance = 5, directed = False\<rparr>,
      \<lparr>source = ''B'', target = ''C'', distance = 3, directed = False\<rparr>,
      \<lparr>source = ''A'', target = ''C'', distance = 10, directed = False\<rparr>]"

text \<open>
  The component once the scenario graph is loaded, \<open>A\<close> and \<open>C\<close> are selected and the
  depth-first search has stored its result and its trace.
\<close>

definition scenarioNode :: "string \<Rightarrow> GraphNode" where
  "scenarioNode c =
     \<lparr>node_id = c, node_x = 0, node_y = 0, radius = 6, color = ''#3498db'', node_name = c\<rparr>"

definition scenarioTrace :: "AnimationStep list" where
  "scenarioTrace =
     [plainStep ''A'' None [] False, plainStep ''A'' (Some (''A'', ''B'')) [''A''] False,
      plainStep ''B'' None [''A''] False, plainStep ''B'' (Some (''B'', ''C'')) [''A'', ''B''] False]"

definition scenarioState :: AppState where
  "scenarioState =
     initialState\<lparr>cities := [''A'', ''B'', ''C''],
                  connections := map (\<lambda>link. \<lparr>city1 = source link, city2 = target link,
                                                conn_distance = distance link,
                                                conn_directed = directed link\<rparr>) scenarioLinks,
                  nodes := map scenarioNode [''A'', ''B'', ''C''],
                  links := scenarioLinks,
                  startCity := ''A'', endCity := ''C'',
                  dfsPath := Some \<lparr>path = [''A'', ''B'', ''C''], totalDistance = Num 8\<rparr>,
                  pathNodes := {''A'', ''B'', ''C''},
                  pathEdges := pathEdgeKeys [''A'', ''B'', ''C''],
                  animationSteps := scenarioTrace\<rparr>"

text \<open>The spec's reading of a directionally valid hop from \<open>a\<close> to \<open>b\<close> over a link.\<close>

definition traversable :: "GraphLink \<Rightarrow> string \<Rightarrow> string \<Rightarrow> bool" where
  "traversable link a b =
     ((source link = a \<and> target link = b) \<or>
      (\<not> directed link \<and> source link = b \<and> target link = a))"

lemmas adjacency_eval = buildAdjacencyList_def initAdjacency_def addLink_def adjPush_def
  dfs.simps bfs_loop.simps dj_loop.simps wave_loop.simps bidi_loop.simps
  modelled_def protoKeys_def linkEnds_def

lemmas walk_eval = reconstructCurrentPath_def unshiftLoop.simps pushLoop.simps lookupPrev_def truthy_def

lemma scenario_dfs:
  "computePath [''A'', ''B'', ''C''] scenarioLinks ''A'' ''C'' DFS False =
     Inr (Some \<lparr>path = [''A'', ''B'', ''C''], totalDistance = Num 8\<rparr>,
          [plainStep ''A'' None [] False, plainStep ''A'' (Some (''A'', ''B'')) [''A''] False,
           plainStep ''B'' None [''A''] False, plainStep ''B'' (Some (''B'', ''C'')) [''A'', ''B''] False])"
  by (simp add: performDFS_def adjacency_eval scenarioLinks_def truthy_def)

lemma scenario_bfs:
  "fst (projr (computePath [''A'', ''B'', ''C''] scenarioLinks ''A'' ''C'' BFS False)) =
     Some \<lparr>path = [''A'', ''C''], totalDistance = Num 10\<rparr>"
  by (simp add: performBFS_def adjacency_eval scenarioLinks_def truthy_def)

lemma scenario_dijkstra:
  "fst (projr (computePath [''A'', ''B'', ''C''] scenarioLinks ''A'' ''C'' Dijkstra False)) =
     Some \<lparr>path = [''A'', ''B'', ''C''], totalDistance = Num 8\<rparr>"
  by (simp add: performDijkstra_def adjacency_eval scenarioLinks_def walk_eval dijkstraInit_def setAdd_def getNum_def)

lemma scenario_wave:
  "fst (projr (computePath [''A'', ''B'', ''C''] scenarioLinks ''A'' ''C'' Wave False)) =
     Some \<lparr>path = [''A'', ''C''], totalDistance = Num 10\<rparr>"
  by (simp add: performWave_def adjacency_eval scenarioLinks_def walk_eval sideInit_def getNum_def
      wave_iteration_def)

lemma scenario_bidi:
  "fst (projr (computePath [''A'', ''B'', ''C''] scenarioLinks ''A'' ''C'' BidirectionalWave False)) =
     Some \<lparr>path = [''A'', ''C''], totalDistance = Num 10\<rparr>"
  by (simp add: performBidirectionalWave_def adjacency_eval scenarioLinks_def walk_eval sideInit_def getNum_def
      bidiInit_def bidi_forward_def bidi_backward_def bidi_phase_def bd_found_def bd_meetingNode_def findLink_def)



section \<open>Mutation service: edges\<close>

lemma addNewEdge_links_existing:
  "list_ex (edgeMatches src tgt dir) (links st) \<Longrightarrow>
   links (addNewEdge src tgt d dir st) =
     map (\<lambda>link. if edgeMatches src tgt dir link then link\<lparr>distance := d, directed := dir\<rparr> else link)
       (links st)"
  by (simp add: addNewEdge_def)

lemma addNewEdge_links_fresh:
  "\<not> list_ex (edgeMatches src tgt dir) (links st) \<Longrightarrow>
   links (addNewEdge src tgt d dir st) =
     links st @ [\<lparr>source = src, target = tgt, distance = d, directed = dir\<rparr>]"
  by (simp add: addNewEdge_def)

lemma confirmAddEdge_rejects:
  "w = NaN \<or> (\<exists>n. w = Num n \<and> n \<le> 0) \<Longrightarrow> confirmAddEdge w dir st = Inr (True, st)"
  by (auto simp: confirmAddEdge_def)

text \<open>
  C8. \<open>addEdge\<close> is an upsert. When some edge matches the endpoint pair under the
  direction rule (the same order, or the opposite order when the new edge is undirected),
  the edge list keeps its length and its order, every matching edge has its weight and
  directed flag overwritten and every other edge is untouched; when none matches, exactly
  one edge with the given fields is appended. The dialog's confirmation rejects a
  non-numeric (\<open>NaN\<close>) or non-positive weight and leaves the state as it was, and passes
  a positive weight on to the upsert and closes the dialog.
\<close>

theorem addEdge_upsert:
  "(list_ex (edgeMatches src tgt dir) (links st) \<longrightarrow>
      length (links (addNewEdge src tgt d dir st)) = length (links st) \<and>
      (\<forall>i < length (links st).
         links (addNewEdge src tgt d dir st) ! i =
           (if edgeMatches src tgt dir (links st ! i)
            then (links st ! i)\<lparr>distance := d, directed := dir\<rparr> else links st ! i))) \<and>
   (\<not> list_ex (edgeMatches src tgt dir) (links st) \<longrightarrow>
      links (addNewEdge src tgt d dir st) =
        links st @ [\<lparr>source = src, target = tgt, distance = d, directed = dir\<rparr>]) \<and>
   (w = NaN \<or> (\<exists>n. w = Num n \<and> n \<le> 0) \<longrightarrow> confirmAddEdge w dir st = Inr (True, st)) \<and>
   (0 < d \<longrightarrow>
      confirmAddEdge (Num d) dir st =
        Inr (False, (addNewEdge (edgeSource st) (edgeTarget st) d dir st)\<lparr>isCreatingEdge := False\<rparr>))"
proof (intro conjI impI)
  assume ex: "list_ex (edgeMatches src tgt dir) (links st)"
  from addNewEdge_links_existing[OF ex]
  show "length (links (addNewEdge src tgt d dir st)) = length (links st)" by simp
  from addNewEdge_links_existing[OF ex]
  show "\<forall>i < length (links st).
         links (addNewEdge src tgt d dir st) ! i =
           (if edgeMatches src tgt dir (links st ! i)
            then (links st ! i)\<lparr>distance := d, directed := dir\<rparr> else links st ! i)" by simp
next
  assume "\<not> list_ex (edgeMatches src tgt dir) (links st)"
  then show "links (addNewEdge src tgt d dir st) =
        links st @ [\<lparr>source = src, target = tgt, distance = d, directed = dir\<rparr>]"
    by (rule addNewEdge_links_fresh)
next
  assume "w = NaN \<or> (\<exists>n. w = Num n \<and> n \<le> 0)"
  then show "confirmAddEdge w dir st = Inr (True, st)" by (rule confirmAddEdge_rejects)
next
  assume "0 < d"
  then show "confirmAddEdge (Num d) dir st =
        Inr (False, (addNewEdge (edgeSource st) (edgeTarget st) d dir st)\<lparr>isCreatingEdge := False\<rparr>)"
    by (simp add: confirmAddEdge_def)
qed

theorem addEdge_upsert_witness:
  "links (addNewEdge ''C'' ''A'' 7 False scenarioState) ! 2 =
     \<lparr>source = ''A'', target = ''C'', distance = 7, directed = False\<rparr> \<and>
   length (links (addNewEdge ''C'' ''A'' 7 False scenarioState)) = 3 \<and>
   links (addNewEdge ''C'' ''A'' 7 True scenarioState) =
     scenarioLinks @ [\<lparr>source = ''C'', target = ''A'', distance = 7, directed = True\<rparr>] \<and>
   confirmAddEdge (Num 0) False scenarioState = Inr (True, scenarioState) \<and>
   confirmAddEdge (Num 4) True scenarioState =
     Inr (False, (addNewEdge [] [] 4 True scenarioState)\<lparr>isCreatingEdge := False\<rparr>)"
proof -
  have ex: "list_ex (edgeMatches ''C'' ''A'' False) (links scenarioState)"
    by (simp add: scenarioState_def scenarioLinks_def edgeMatches_def)
  have nex: "\<not> list_ex (edgeMatches ''C'' ''A'' True) (links scenarioState)"
    by (simp add: scenarioState_def scenarioLinks_def edgeMatches_def)
  have l: "links scenarioState = scenarioLinks"
    by (simp add: scenarioState_def)
  have e: "edgeSource scenarioState = []" "edgeTarget scenarioState = []"
    by (simp_all add: scenarioState_def initialState_def)
  from addEdge_upsert[of "''C''" "''A''" False scenarioState 7 "Num 0"] ex
  have a: "length (links (addNewEdge ''C'' ''A'' 7 False scenarioState)) = 3"
    and b: "links (addNewEdge ''C'' ''A'' 7 False scenarioState) ! 2 =
     \<lparr>source = ''A'', target = ''C'', distance = 7, directed = False\<rparr>"
    and c: "confirmAddEdge (Num 0) False scenarioState = Inr (True, scenarioState)"
    by (simp_all add: l scenarioLinks_def edgeMatches_def)
  from addEdge_upsert[of "''C''" "''A''" True scenarioState 7 "NaN"] nex
  have d: "links (addNewEdge ''C'' ''A'' 7 True scenarioState) =
     scenarioLinks @ [\<lparr>source = ''C'', target = ''A'', distance = 7, directed = True\<rparr>]"
    by (simp add: l)
  from addEdge_upsert[of "''C''" "''A''" True scenarioState 4 "NaN"]
  have f: "confirmAddEdge (Num 4) True scenarioState =
     Inr (False, (addNewEdge [] [] 4 True scenarioState)\<lparr>isCreatingEdge := False\<rparr>)"
    by (simp add: e)
  from a b c d f show ?thesis by simp
qed

section \<open>Mutation service: nodes\<close>

lemma deleteNode_store:
  "cities (deleteNode nodeId st) = filter (\<lambda>city. city \<noteq> nodeId) (cities st)"
  "nodes (deleteNode nodeId st) = filter (\<lambda>node. node_id node \<noteq> nodeId) (nodes st)"
  "links (deleteNode nodeId st) =
     filter (\<lambda>link. source link \<noteq> nodeId \<and> target link \<noteq> nodeId) (links st)"
  "connections (deleteNode nodeId st) =
     filter (\<lambda>conn. city1 conn \<noteq> nodeId \<and> city2 conn \<noteq> nodeId) (connections st)"
  by (simp_all add: deleteNode_def Let_def clearPath_def resetAnimationState_def)

lemma deleteNode_selected:
  "startCity st = nodeId \<or> endCity st = nodeId \<Longrightarrow>
   dfsPath (deleteNode nodeId st) = None \<and> animationSteps (deleteNode nodeId st) = [] \<and>
   pathNodes (deleteNode nodeId st) = {} \<and> pathEdges (deleteNode nodeId st) = {}"
  by (auto simp: deleteNode_def Let_def clearPath_def resetAnimationState_def)

lemma deleteNode_unselected:
  "startCity st \<noteq> nodeId \<Longrightarrow> endCity st \<noteq> nodeId \<Longrightarrow>
   dfsPath (deleteNode nodeId st) = dfsPath st \<and> animationSteps (deleteNode nodeId st) = animationSteps st \<and>
   pathNodes (deleteNode nodeId st) = pathNodes st \<and> pathEdges (deleteNode nodeId st) = pathEdges st"
  by (simp add: deleteNode_def Let_def)

lemma scenarioState_stored:
  "fst (projr (computePath (cities scenarioState) (links scenarioState) (startCity scenarioState)
      (endCity scenarioState) DFS False)) = dfsPath scenarioState"
  "snd (projr (computePath (cities scenarioState) (links scenarioState) (startCity scenarioState)
      (endCity scenarioState) DFS False)) = animationSteps scenarioState"
  using scenario_dfs by (simp_all add: scenarioState_def initialState_def scenarioTrace_def)

text \<open>
  The neighbouring handler \<open>deleteEdge\<close> clears the stored path as soon as the removed
  edge is one of the path's: removing \<open>B-C\<close> from the scenario clears the path \<open>A, B, C\<close>.
\<close>

lemma deleteEdge_clears_path:
  "dfsPath (deleteEdge ''B'' ''C'' scenarioState) = None \<and>
   pathNodes (deleteEdge ''B'' ''C'' scenarioState) = {} \<and>
   animationSteps (deleteEdge ''B'' ''C'' scenarioState) = []"
  by (simp add: deleteEdge_def scenarioState_def Let_def clearPath_def resetAnimationState_def edgeKey_def)

text \<open>
  C2 at a failing input. \<open>deleteNode\<close> takes the node out of the city and the node
  list and takes out exactly the links that touch it, keeping every other city, node
  and link in order. It clears the stored path, its highlights and the trace only when the
  deleted node is the start or the end selection: whenever it is neither, they all stay as
  they were, also when the path runs through the deleted node. On the scenario, deleting
  \<open>B\<close> leaves the single link \<open>A-C\<close> and keeps the stored path \<open>A, B, C\<close>, which the claim
  says is cleared.
\<close>

theorem deleteNode_stale_path:
  assumes "startCity st \<noteq> nodeId" "endCity st \<noteq> nodeId"
  shows "cities (deleteNode nodeId st) = filter (\<lambda>city. city \<noteq> nodeId) (cities st) \<and>
         nodes (deleteNode nodeId st) = filter (\<lambda>node. node_id node \<noteq> nodeId) (nodes st) \<and>
         links (deleteNode nodeId st) =
           filter (\<lambda>link. source link \<noteq> nodeId \<and> target link \<noteq> nodeId) (links st) \<and>
         dfsPath (deleteNode nodeId st) = dfsPath st \<and>
         pathNodes (deleteNode nodeId st) = pathNodes st \<and>
         pathEdges (deleteNode nodeId st) = pathEdges st \<and>
         animationSteps (deleteNode nodeId st) = animationSteps st"
  using deleteNode_unselected[OF assms] by (simp add: deleteNode_store)

theorem deleteNode_stale_path_witness:
  "cities (deleteNode ''B'' scenarioState) = [''A'', ''C''] \<and>
   nodes (deleteNode ''B'' scenarioState) = [scenarioNode ''A'', scenarioNode ''C''] \<and>
   links (deleteNode ''B'' scenarioState) =
     [\<lparr>source = ''A'', target = ''C'', distance = 10, directed = False\<rparr>] \<and>
   dfsPath (deleteNode ''B'' scenarioState) =
     Some \<lparr>path = [''A'', ''B'', ''C''], totalDistance = Num 8\<rparr> \<and>
   pathNodes (deleteNode ''B'' scenarioState) = {''A'', ''B'', ''C''} \<and>
   animationSteps (deleteNode ''B'' scenarioState) = scenarioTrace"
proof -
  have s: "cities scenarioState = [''A'', ''B'', ''C'']" "links scenarioState = scenarioLinks"
    "nodes scenarioState = map scenarioNode [''A'', ''B'', ''C'']"
    "startCity scenarioState = ''A''" "endCity scenarioState = ''C''"
    "dfsPath scenarioState = Some \<lparr>path = [''A'', ''B'', ''C''], totalDistance = Num 8\<rparr>"
    "pathNodes scenarioState = {''A'', ''B'', ''C''}"
    "animationSteps scenarioState = scenarioTrace"
    by (simp_all add: scenarioState_def initialState_def)
  from deleteNode_stale_path[of scenarioState "''B''"] show ?thesis
    by (simp add: s scenarioLinks_def scenarioNode_def)
qed

section \<open>Selections without a search\<close>

lemma truthy_Nil [simp]: "\<not> truthy []"
  by (simp add: truthy_def)

lemma computePath_no_selection:
  "startId = endId \<or> startId = [] \<or> endId = [] \<Longrightarrow>
   computePath cs ls startId endId alg rv = Inr (None, [])"
  by (cases alg)
     (auto simp: performDFS_def performBFS_def performDijkstra_def performWave_def
        performBidirectionalWave_def)

text \<open>
  C6. The component's start and end are each a city id or the empty id, which stands
  for no selection: they are initialised to the first and the last city, chosen from a
  list of the cities, and reset by \<open>deleteNode\<close> to the first remaining city or to the empty
  id. On such a selection, for every strategy, when the start equals the end, or the start
  or the end is absent from the node set, path computation answers no result with an empty
  trace; the answer is a value, no error.
\<close>

theorem computePath_terminal_selection:
  assumes "startId \<in> set cs \<or> startId = []" "endId \<in> set cs \<or> endId = []"
    and "startId = endId \<or> startId \<notin> set cs \<or> endId \<notin> set cs"
  shows "computePath cs ls startId endId alg rv = Inr (None, [])"
proof -
  from assms have "startId = endId \<or> startId = [] \<or> endId = []" by blast
  then show ?thesis by (rule computePath_no_selection)
qed

theorem computePath_terminal_selection_witness:
  "computePath [''A'', ''B'', ''C''] scenarioLinks ''A'' ''A'' Dijkstra True = Inr (None, []) \<and>
   computePath [''A'', ''B'', ''C''] scenarioLinks [] ''A'' Wave False = Inr (None, []) \<and>
   computePath [''A'', ''B'', ''C''] scenarioLinks ''C'' [] DFS False = Inr (None, [])"
  using computePath_terminal_selection[of "''A''" "[''A'', ''B'', ''C'']" "''A''" scenarioLinks Dijkstra True]
    computePath_terminal_selection[of "[]" "[''A'', ''B'', ''C'']" "''A''" scenarioLinks Wave False]
    computePath_terminal_selection[of "''C''" "[''A'', ''B'', ''C'']" "[]" scenarioLinks DFS False]
  by simp

section \<open>The bidirectional engine on directed edges\<close>

definition oneWayLinks :: "GraphLink list" where
  "oneWayLinks =
     [\<lparr>source = ''A'', target = ''B'', distance = 1, directed = True\<rparr>,
      \<lparr>source = ''C'', target = ''B'', distance = 1, directed = True\<rparr>,
      \<lparr>source = ''A'', target = ''D'', distance = 5, directed = True\<rparr>,
      \<lparr>source = ''D'', target = ''E'', distance = 5, directed = True\<rparr>,
      \<lparr>source = ''E'', target = ''C'', distance = 5, directed = True\<rparr>]"

lemmas bidi_eval = performBidirectionalWave_def sideInit_def getNum_def
  bidiInit_def bidi_forward_def bidi_backward_def bidi_phase_def bd_found_def bd_meetingNode_def
  findLink_def

lemma oneWay_bidi:
  "fst (projr (computePath [''A'', ''B'', ''C'', ''D'', ''E''] oneWayLinks ''A'' ''C'' BidirectionalWave False)) =
     Some \<lparr>path = [''A'', ''B'', ''C''], totalDistance = Num 2\<rparr>"
  by (simp add: bidi_eval adjacency_eval oneWayLinks_def walk_eval)

lemma oneWay_bidi_returns:
  "isl (computePath [''A'', ''B'', ''C'', ''D'', ''E''] oneWayLinks ''A'' ''C'' BidirectionalWave False) = False"
  by (simp add: bidi_eval adjacency_eval oneWayLinks_def walk_eval)

lemma oneWay_dijkstra:
  "fst (projr (computePath [''A'', ''B'', ''C'', ''D'', ''E''] oneWayLinks ''A'' ''C'' Dijkstra False)) =
     Some \<lparr>path = [''A'', ''D'', ''E'', ''C''], totalDistance = Num 15\<rparr>"
  by (simp add: performDijkstra_def adjacency_eval oneWayLinks_def walk_eval dijkstraInit_def setAdd_def
      getNum_def)

lemma oneWay_dijkstra_returns:
  "isl (computePath [''A'', ''B'', ''C'', ''D'', ''E''] oneWayLinks ''A'' ''C'' Dijkstra False) = False"
  by (simp add: performDijkstra_def adjacency_eval oneWayLinks_def walk_eval dijkstraInit_def setAdd_def
      getNum_def)

text \<open>
  C1 at a failing input. On the one-way graph \<open>A\<rightarrow>B\<close>, \<open>C\<rightarrow>B\<close>, \<open>A\<rightarrow>D\<rightarrow>E\<rightarrow>C\<close> the bidirectional
  engine, without reverse traversal, returns the path \<open>A, B, C\<close>, and no link can be
  traversed from \<open>B\<close> to \<open>C\<close>: the backward half walked \<open>C\<rightarrow>B\<close> along its direction and
  the path uses it against it.
\<close>

theorem bidirectional_path_against_direction:
  "\<not> isl (computePath [''A'', ''B'', ''C'', ''D'', ''E''] oneWayLinks ''A'' ''C'' BidirectionalWave False) \<and>
   map_option path
     (fst (projr (computePath [''A'', ''B'', ''C'', ''D'', ''E''] oneWayLinks ''A'' ''C'' BidirectionalWave False))) =
     Some [''A'', ''B'', ''C''] \<and>
   filter (\<lambda>link. traversable link ''B'' ''C'') oneWayLinks = []"
proof -
  have "filter (\<lambda>link. traversable link ''B'' ''C'') oneWayLinks = []"
    by (simp add: oneWayLinks_def traversable_def)
  with oneWay_bidi oneWay_bidi_returns show ?thesis by simp
qed

text \<open>
  C3 at the same input. All weights are positive, Dijkstra reports 15 (the only
  directed route, \<open>A, D, E, C\<close>) and the bidirectional engine reports 2.
\<close>

theorem dijkstra_above_bidirectional:
  "list_all (\<lambda>link. 0 \<le> distance link) oneWayLinks \<and>
   \<not> isl (computePath [''A'', ''B'', ''C'', ''D'', ''E''] oneWayLinks ''A'' ''C'' Dijkstra False) \<and>
   map_option totalDistance
     (fst (projr (computePath [''A'', ''B'', ''C'', ''D'', ''E''] oneWayLinks ''A'' ''C'' Dijkstra False))) =
     Some (Num 15) \<and>
   \<not> isl (computePath [''A'', ''B'', ''C'', ''D'', ''E''] oneWayLinks ''A'' ''C'' BidirectionalWave False) \<and>
   map_option totalDistance
     (fst (projr (computePath [''A'', ''B'', ''C'', ''D'', ''E''] oneWayLinks ''A'' ''C'' BidirectionalWave False))) =
     Some (Num 2)"
proof -
  have "list_all (\<lambda>link. 0 \<le> distance link) oneWayLinks"
    by (simp add: oneWayLinks_def)
  with oneWay_bidi oneWay_bidi_returns oneWay_dijkstra oneWay_dijkstra_returns show ?thesis by simp
qed

section \<open>Replaying a trace\<close>



section \<open>Predecessor chains\<close>

text \<open>
  \<open>upChain previous cur ch\<close>: following \<open>previous\<close> from \<open>cur\<close> while the node is truthy
  visits the nodes of \<open>ch\<close>, last first; \<open>ch\<close> lists them root first.
\<close>

inductive upChain :: "(string \<rightharpoonup> string option) \<Rightarrow> string option \<Rightarrow> string list \<Rightarrow> bool"
  for previous :: "string \<rightharpoonup> string option" where
  upNone: "upChain previous None []"
| upFalsy: "\<not> truthy c \<Longrightarrow> upChain previous (Some c) []"
| upStep: "truthy c \<Longrightarrow> upChain previous (lookupPrev previous c) ch \<Longrightarrow>
           upChain previous (Some c) (ch @ [c])"








lemma upChain_last: "upChain previous cur ch \<Longrightarrow> ch \<noteq> [] \<Longrightarrow> cur = Some (last ch)"
  by (induction rule: upChain.induct) simp_all

lemma upChain_truthy: "upChain previous cur ch \<Longrightarrow> list_all truthy ch"
  by (induction rule: upChain.induct) simp_all

lemma zip_tl_snoc: "xs \<noteq> [] \<Longrightarrow> zip (xs @ [c]) (tl (xs @ [c])) = zip xs (tl xs) @ [(last xs, c)]"
proof (induction xs)
  case Nil
  then show ?case by simp
next
  case (Cons a xs)
  then show ?case by (cases xs) simp_all
qed

text \<open>Every two neighbours of a chain are a node and its recorded predecessor.\<close>

lemma upChain_links:
  "upChain previous cur ch \<Longrightarrow> (a, b) \<in> set (zip ch (tl ch)) \<Longrightarrow> lookupPrev previous b = Some a"
proof (induction rule: upChain.induct)
  case upNone
  then show ?case by simp
next
  case (upFalsy c)
  then show ?case by simp
next
  case (upStep c ch)
  show ?case
  proof (cases ch rule: rev_cases)
    case Nil
    with upStep.prems show ?thesis by simp
  next
    case (snoc ys y)
    from upChain_last[OF upStep.hyps(2)] snoc have l: "lookupPrev previous c = Some y" by simp
    from snoc have "zip (ch @ [c]) (tl (ch @ [c])) = zip ch (tl ch) @ [(y, c)]"
      using zip_tl_snoc[of ch c] by simp
    with upStep.prems have "(a, b) \<in> set (zip ch (tl ch)) \<or> (a, b) = (y, c)" by auto
    with upStep.IH l show ?thesis by auto
  qed
qed

lemma upChain_root:
  "upChain previous cur ch \<Longrightarrow> ch \<noteq> [] \<Longrightarrow>
   (case lookupPrev previous (hd ch) of None \<Rightarrow> True | Some r \<Rightarrow> \<not> truthy r)"
proof (induction rule: upChain.induct)
  case upNone
  then show ?case by simp
next
  case (upFalsy c)
  then show ?case by simp
next
  case (upStep c ch)
  show ?case
  proof (cases ch)
    case Nil
    with upStep.hyps(2) show ?thesis
      by (cases rule: upChain.cases) (auto split: option.splits)
  next
    case (Cons a list)
    with upStep.IH show ?thesis by simp
  qed
qed

section \<open>What the adjacency builder yields\<close>

definition arc :: "adjacency \<Rightarrow> string \<Rightarrow> string \<Rightarrow> int \<Rightarrow> bool" where
  "arc al a b w = (case map_of al a of None \<Rightarrow> False | Some es \<Rightarrow> (b, w) \<in> set es)"












section \<open>Properties of consecutive pairs\<close>








section \<open>Invariants of the bidirectional engine\<close>

















section \<open>The recomputed distance of the bidirectional engine\<close>




text \<open>
  The claim's reading of the live edge that connects a pair of nodes, stated on the edge
  list alone: \<open>link\<close> is an element of the list whose two ends are \<open>a\<close> and \<open>b\<close> in one
  order or the other, and no element before it in the list has these two ends.
\<close>

definition joins :: "GraphLink \<Rightarrow> string \<Rightarrow> string \<Rightarrow> bool" where
  "joins link a b \<longleftrightarrow>
     (source link = a \<and> target link = b) \<or> (source link = b \<and> target link = a)"

definition liveEdge :: "GraphLink list \<Rightarrow> string \<times> string \<Rightarrow> GraphLink \<Rightarrow> bool" where
  "liveEdge ls ab link \<longleftrightarrow>
     (\<exists>before after. ls = before @ link # after \<and> joins link (fst ab) (snd ab) \<and>
        \<not> list_ex (\<lambda>l. joins l (fst ab) (snd ab)) before)"


text \<open>The live edge of a pair is unique, so the sum in the theorem below is determined.\<close>

lemma liveEdge_unique:
  assumes "liveEdge ls ab l1" "liveEdge ls ab l2"
  shows "l1 = l2"
proof -
  from assms(1) obtain b1 a1 where 1: "ls = b1 @ l1 # a1" "joins l1 (fst ab) (snd ab)"
    "\<not> list_ex (\<lambda>l. joins l (fst ab) (snd ab)) b1"
    unfolding liveEdge_def by blast
  from assms(2) obtain b2 a2 where 2: "ls = b2 @ l2 # a2" "joins l2 (fst ab) (snd ab)"
    "\<not> list_ex (\<lambda>l. joins l (fst ab) (snd ab)) b2"
    unfolding liveEdge_def by blast
  from 1(1) 2(1) have eq: "b1 @ l1 # a1 = b2 @ l2 # a2" by simp
  show ?thesis
  proof (rule ccontr)
    assume ne: "l1 \<noteq> l2"
    from eq have "(\<exists>us. b1 = b2 @ us \<and> us @ l1 # a1 = l2 # a2) \<or> (\<exists>us. b1 @ us = b2 \<and> l1 # a1 = us @ l2 # a2)"
      by (auto simp: append_eq_append_conv2)
    then show False
    proof
      assume "\<exists>us. b1 = b2 @ us \<and> us @ l1 # a1 = l2 # a2"
      then obtain us where us: "b1 = b2 @ us" "us @ l1 # a1 = l2 # a2" by blast
      with ne have "l2 \<in> set us" by (cases us) auto
      with us(1) have "l2 \<in> set b1" by simp
      with 1(3) 2(2) show False by (auto simp: list_ex_iff)
    next
      assume "\<exists>us. b1 @ us = b2 \<and> l1 # a1 = us @ l2 # a2"
      then obtain us where us: "b1 @ us = b2" "l1 # a1 = us @ l2 # a2" by blast
      with ne have "l1 \<in> set us" by (cases us) auto
      with us(1) have "l1 \<in> set b2" by auto
      with 2(3) 1(2) show False by (auto simp: list_ex_iff)
    qed
  qed
qed






section \<open>Returned results, engine by engine\<close>






section \<open>What a replay marks visited\<close>

definition stepVisits :: "AnimationStep \<Rightarrow> string set" where
  "stepVisits step =
     (if waveNodes step \<noteq> None \<and> waveEdges step \<noteq> None then set (the (waveNodes step))
      else {currentNode step})"

definition traceNodes :: "AnimationStep list \<Rightarrow> string set" where
  "traceNodes steps = (\<Union>step \<in> set steps. stepVisits step)"



lemma traceNodes_append [simp]: "traceNodes (xs @ ys) = traceNodes xs \<union> traceNodes ys"
  by (auto simp: traceNodes_def)

lemma traceNodes_Cons [simp]: "traceNodes (step # steps) = stepVisits step \<union> traceNodes steps"
  by (auto simp: traceNodes_def)

lemma stepVisits_plainStep [simp]: "stepVisits (plainStep n e p b) = {n}"
  by (simp add: stepVisits_def plainStep_def)

lemma stepVisits_waveStep [simp]: "stepVisits (waveStep n e p wn we nw num bw) = set wn"
  by (simp add: stepVisits_def waveStep_def)

lemma traceNodes_Nil [simp]: "traceNodes [] = {}"
  by (simp add: traceNodes_def)

section \<open>The depth-first engine\<close>

definition hop :: "adjacency \<Rightarrow> string \<Rightarrow> string \<Rightarrow> bool" where
  "hop al a b \<longleftrightarrow> (\<exists>w. arc al a b w)"











section \<open>The breadth-first engine\<close>









section \<open>Returned paths are simple\<close>





section \<open>Predecessors are marked by the trace\<close>








subsection \<open>Bidirectional wave\<close>











subsection \<open>Dijkstra\<close>







section \<open>Replaying a trace against the returned path\<close>




section \<open>Breadth-first search returns a path with the fewest hops\<close>
















text \<open>
  A neighbour is marked visited in the update that appends it to the queue, so the queue
  never holds a node twice, and all its nodes are visited.
\<close>

lemma bfs_neighbors_no_duplicates:
  "distinct (map fst (bfs_queue st)) \<Longrightarrow> fst ` set (bfs_queue st) \<subseteq> bfs_visited st \<Longrightarrow>
   distinct (map fst (bfs_queue (bfs_neighbors n cp dist es st))) \<and>
   fst ` set (bfs_queue (bfs_neighbors n cp dist es st)) \<subseteq> bfs_visited (bfs_neighbors n cp dist es st)"
proof (induction es arbitrary: st)
  case Nil
  then show ?case by simp
next
  case (Cons nb es)
  show ?case
  proof (cases "fst nb \<in> bfs_visited st")
    case True
    with Cons show ?thesis by simp
  next
    case False
    let ?st1 = "st\<lparr>bfs_visited := insert (fst nb) (bfs_visited st),
              bfs_animSteps := bfs_animSteps st @
                 [plainStep n (Some (n, fst nb)) cp False,
                  plainStep (fst nb) None cp False],
              bfs_queue := bfs_queue st @ [(fst nb, cp, dist + snd nb)]\<rparr>"
    from Cons.prems False have "distinct (map fst (bfs_queue ?st1))"
      and "fst ` set (bfs_queue ?st1) \<subseteq> bfs_visited ?st1"
      by auto
    from Cons.IH[OF this] False show ?thesis by simp
  qed
qed

section \<open>Hops over the live edge set\<close>






section \<open>Reachability in the adjacency index\<close>









section \<open>Undirected edge lists\<close>








section \<open>Breadth-first search finds the end when it can be reached\<close>







section \<open>Predecessor walks that end\<close>





section \<open>The wave engine finds the end exactly when it can be reached\<close>



definition nbrs :: "adjacency \<Rightarrow> string list \<Rightarrow> string set" where
  "nbrs al w = {v. \<exists>c \<in> set w. hop al c v}"


lemma nbrs_Nil [simp]: "nbrs al [] = {}"
  by (simp add: nbrs_def)








section \<open>The bidirectional engine on a symmetric index\<close>













section \<open>Depth-first search finds the end when it can be reached\<close>






section \<open>Well-formed edge lists\<close>










section \<open>Reverse traversal on undirected graphs\<close>







end
